theory Spec2Isabelle
  imports Main
begin

section \<open>Ingestion of monthly taxi-trip files: a model of \<^verbatim>\<open>trips.py\<close>\<close>

text \<open>
  The development follows \<^verbatim>\<open>src/pipeline/assets/ingestion/trips.py\<close>. Python exceptions
  are values of \<open>error\<close>; a function that can raise returns \<open>error + 'a\<close>. The
  libraries the module calls (\<^verbatim>\<open>datetime\<close>, \<^verbatim>\<open>pandas\<close>, \<^verbatim>\<open>requests\<close>, \<^verbatim>\<open>json\<close>) are
  modelled by the behaviour the module relies on; what cannot be computed from the
  arguments (the network, the decoding of a parquet payload, timestamp parsing, the
  clock) is a field of the record \<open>extern\<close>.
\<close>

datatype error =
    ValueError | TypeError | RuntimeError | JSONDecodeError
  | RequestException | ArrowInvalid | InvalidIndexError

subsection \<open>Calendar dates (\<^verbatim>\<open>datetime.date\<close>)\<close>

record date =
  year :: int
  month :: int
  day :: int

definition is_leap :: "int \<Rightarrow> bool" where
  "is_leap y = (y mod 4 = 0 \<and> (y mod 100 \<noteq> 0 \<or> y mod 400 = 0))"

definition days_in_month :: "int \<Rightarrow> int \<Rightarrow> int" where
  "days_in_month y m =
     (if m = 2 then (if is_leap y then 29 else 28)
      else if m = 4 \<or> m = 6 \<or> m = 9 \<or> m = 11 then 30 else 31)"

text \<open>
  The constructor \<^verbatim>\<open>date(year, month, day)\<close> raises \<^verbatim>\<open>ValueError\<close> outside
  \<^verbatim>\<open>MINYEAR = 1\<close> .. \<^verbatim>\<open>MAXYEAR = 9999\<close>, months 1..12 and the days of the month.
\<close>

definition mk_date :: "int \<Rightarrow> int \<Rightarrow> int \<Rightarrow> error + date" where
  "mk_date y m d =
     (if 1 \<le> y \<and> y \<le> 9999 \<and> 1 \<le> m \<and> m \<le> 12 \<and> 1 \<le> d \<and> d \<le> days_in_month y m
      then Inr \<lparr>year = y, month = m, day = d\<rparr>
      else Inl ValueError)"

text \<open>A \<^verbatim>\<open>date\<close> object that exists is one its constructor accepted.\<close>

definition valid_date :: "date \<Rightarrow> bool" where
  "valid_date d = (mk_date (year d) (month d) (day d) = Inr d)"

text \<open>Dates compare as the triples (year, month, day).\<close>

definition date_lt :: "date \<Rightarrow> date \<Rightarrow> bool" where
  "date_lt a b =
     (year a < year b \<or> (year a = year b \<and>
        (month a < month b \<or> (month a = month b \<and> day a < day b))))"

definition date_ge :: "date \<Rightarrow> date \<Rightarrow> bool" where
  "date_ge a b = (\<not> date_lt a b)"

subsection \<open>The window enumerator \<^verbatim>\<open>_month_starts\<close>\<close>

text \<open>
  The generator is modelled by the list of the dates it yields and by how it ends:
  \<open>None\<close> when the loop reaches \<^verbatim>\<open>break\<close>, \<open>Some e\<close> when \<^verbatim>\<open>date(year, month, 1)\<close>
  raises \<open>e\<close> after those dates were yielded. \<open>month_loop\<close> is the \<^verbatim>\<open>while True\<close> loop
  on the variables \<^verbatim>\<open>year\<close> and \<^verbatim>\<open>month\<close>.
\<close>

function month_loop :: "int \<Rightarrow> int \<Rightarrow> date \<Rightarrow> date list \<times> error option" where
  "month_loop y m end_date =
     (case mk_date y m 1 of
        Inl e \<Rightarrow> ([], Some e)
      | Inr current \<Rightarrow>
          if date_ge current end_date then ([], None)
          else (case (if m + 1 > 12 then month_loop (y + 1) 1 end_date
                      else month_loop y (m + 1) end_date) of
                  (ys, r) \<Rightarrow> (current # ys, r)))"
  by pat_completeness auto
termination
  by (relation "measure (\<lambda>(y, m, e). nat ((10000 - y) * 12 + (13 - m)))")
     (auto simp: mk_date_def split: if_splits)

declare month_loop.simps [simp del]

definition month_starts :: "date \<Rightarrow> date \<Rightarrow> date list \<times> error option" where
  "month_starts start end_date = month_loop (year start) (month start) end_date"

text \<open>Vocabulary for the statements about the enumerator.\<close>

definition first_of_month :: "date \<Rightarrow> date" where
  "first_of_month d = \<lparr>year = year d, month = month d, day = 1\<rparr>"

definition next_month :: "date \<Rightarrow> date" where
  "next_month d =
     (if month d + 1 > 12 then \<lparr>year = year d + 1, month = 1, day = 1\<rparr>
      else \<lparr>year = year d, month = month d + 1, day = 1\<rparr>)"

definition is_month_start :: "date \<Rightarrow> bool" where
  "is_month_start d = (valid_date d \<and> day d = 1)"

definition midx :: "int \<Rightarrow> int \<Rightarrow> nat" where
  "midx y m = nat (y * 12 + (m - 1))"

definition month_of_index :: "nat \<Rightarrow> date" where
  "month_of_index k = \<lparr>year = int k div 12, month = int k mod 12 + 1, day = 1\<rparr>"

definition hi :: "date \<Rightarrow> nat" where
  "hi e = (if 1 < day e then Suc (midx (year e) (month e)) else midx (year e) (month e))"

definition last_month :: date where
  "last_month = \<lparr>year = 9999, month = 12, day = 1\<rparr>"

subsection \<open>Strings\<close>

text \<open>
  Column names, labels and URLs are ASCII strings; \<^verbatim>\<open>str.lower\<close> on them maps
  \<^verbatim>\<open>A\<close>..\<^verbatim>\<open>Z\<close> to \<^verbatim>\<open>a\<close>..\<^verbatim>\<open>z\<close> and leaves the rest.
\<close>

definition lower_char :: "char \<Rightarrow> char" where
  "lower_char c =
     (let n = (of_char c :: nat) in if 65 \<le> n \<and> n \<le> 90 then char_of (n + 32) else c)"

definition lower :: "string \<Rightarrow> string" where
  "lower s = map lower_char s"

definition digit :: "nat \<Rightarrow> char" where
  "digit n = char_of (48 + n)"

fun str_nat :: "nat \<Rightarrow> string" where
  "str_nat n = (if n < 10 then [digit n] else str_nat (n div 10) @ [digit (n mod 10)])"

declare str_nat.simps [simp del]

definition str_int :: "int \<Rightarrow> string" where
  "str_int i = (if i < 0 then CHR ''-'' # str_nat (nat (- i)) else str_nat (nat i))"

text \<open>The format \<^verbatim>\<open>{:02d}\<close>, as used on a month number.\<close>

definition fmt_02d :: "int \<Rightarrow> string" where
  "fmt_02d i = (let s = str_int i in replicate (2 - length s) CHR ''0'' @ s)"

definition BASE_URL :: string where
  "BASE_URL = ''https://d37ci6vzurychx.cloudfront.net/trip-data''"

subsection \<open>Tables (\<^verbatim>\<open>pandas.DataFrame\<close>)\<close>

text \<open>
  A cell is a null (\<^verbatim>\<open>None\<close>, \<^verbatim>\<open>NaN\<close>, the \<^verbatim>\<open>NaT\<close> of a timezone-naive column), a
  timezone-naive timestamp (calendar date and nanoseconds into the day), a
  timezone-aware instant (as \<^verbatim>\<open>utcnow\<close> returns it, or as a timezone-aware column holds
  it), the missing value of a timezone-aware column, a string, or any other value. A
  timezone-aware column keeps its zone in its type also where a value is missing,
  which is why its missing value is a cell of its own. A table is its column labels, in
  order and possibly repeated as pandas allows, and its rows, each row holding one cell
  per column. The row index is not modelled.
\<close>

datatype 'a cell =
  Null | Timestamp date nat | UtcStamp int | UtcNull | Text string | Raw 'a

text \<open>
  The result of \<^verbatim>\<open>pd.to_datetime(series, errors="coerce")\<close> when it does not raise: a
  column of one type, timezone-naive or timezone-aware, where \<open>None\<close> is a value that
  could not be converted (\<^verbatim>\<open>NaT\<close>).
\<close>

datatype dt_column = Naive "(date \<times> nat) option list" | Aware "int option list"

fun cell_at :: "dt_column \<Rightarrow> nat \<Rightarrow> 'a cell" where
  "cell_at (Naive ps) k =
     (if k < length ps then (case ps ! k of None \<Rightarrow> Null | Some (d, n) \<Rightarrow> Timestamp d n)
      else Null)"
| "cell_at (Aware ts) k =
     (if k < length ts then (case ts ! k of None \<Rightarrow> UtcNull | Some t \<Rightarrow> UtcStamp t)
      else UtcNull)"

record 'a dataframe =
  columns :: "string list"
  rows :: "'a cell list list"

definition wf_frame :: "'a dataframe \<Rightarrow> bool" where
  "wf_frame df = list_all (\<lambda>r. length r = length (columns df)) (rows df)"

text \<open>\<^verbatim>\<open>pd.DataFrame(columns=cs)\<close>; \<^verbatim>\<open>pd.DataFrame()\<close> is \<open>new_frame []\<close>.\<close>

definition new_frame :: "string list \<Rightarrow> 'a dataframe" where
  "new_frame cs = \<lparr>columns = cs, rows = []\<rparr>"

text \<open>\<^verbatim>\<open>df.empty\<close>: one of the two axes has length 0.\<close>

definition df_empty :: "'a dataframe \<Rightarrow> bool" where
  "df_empty df = (columns df = [] \<or> rows df = [])"

text \<open>\<^verbatim>\<open>df.rename(columns=mapper)\<close> with a dictionary: labels that are keys are replaced.\<close>

definition rename :: "(string \<rightharpoonup> string) \<Rightarrow> 'a dataframe \<Rightarrow> 'a dataframe" where
  "rename mapper df =
     df\<lparr>columns := map (\<lambda>c. case mapper c of None \<Rightarrow> c | Some c' \<Rightarrow> c') (columns df)\<rparr>"

text \<open>The dictionary \<^verbatim>\<open>{c: c.lower() for c in df.columns}\<close>.\<close>

definition lower_map :: "string list \<Rightarrow> (string \<rightharpoonup> string)" where
  "lower_map cs = (\<lambda>c. if c \<in> set cs then Some (lower c) else None)"

definition positions :: "string \<Rightarrow> string list \<Rightarrow> nat list" where
  "positions c cs = filter (\<lambda>i. cs ! i = c) [0..<length cs]"

definition column :: "nat \<Rightarrow> 'a dataframe \<Rightarrow> 'a cell list" where
  "column i df = map (\<lambda>r. r ! i) (rows df)"

text \<open>
  Assigning a converted series to the column at position \<open>i\<close>: row \<open>k\<close> takes the
  series' value at \<open>k\<close>, the missing value of the series' type where it has none.
\<close>

definition set_series :: "nat \<Rightarrow> dt_column \<Rightarrow> 'a dataframe \<Rightarrow> 'a dataframe" where
  "set_series i s df =
     df\<lparr>rows := map (\<lambda>(k, r). r[i := cell_at s k]) (enumerate 0 (rows df))\<rparr>"

text \<open>
  \<^verbatim>\<open>df[c] = v\<close> for a scalar \<open>v\<close>: every column labelled \<open>c\<close> is overwritten; when there
  is none, a new last column is added.
\<close>

definition set_scalar :: "string \<Rightarrow> 'a cell \<Rightarrow> 'a dataframe \<Rightarrow> 'a dataframe" where
  "set_scalar c v df =
     (if c \<in> set (columns df)
      then df\<lparr>rows := map (\<lambda>r. fold (\<lambda>i r'. r'[i := v]) (positions c (columns df)) r) (rows df)\<rparr>
      else df\<lparr>columns := columns df @ [c], rows := map (\<lambda>r. r @ [v]) (rows df)\<rparr>)"

subsection \<open>The schema normalizer \<^verbatim>\<open>_standardize_schema\<close>\<close>

definition build_rename_map :: "string list \<Rightarrow> (string \<rightharpoonup> string)" where
  "build_rename_map cs =
     (let m0 = Map.empty;
          m1 = (if ''tpep_pickup_datetime'' \<in> set cs
                then m0(''tpep_pickup_datetime'' \<mapsto> ''pickup_datetime'') else m0);
          m2 = (if ''lpep_pickup_datetime'' \<in> set cs
                then m1(''lpep_pickup_datetime'' \<mapsto> ''pickup_datetime'') else m1);
          m3 = (if ''tpep_dropoff_datetime'' \<in> set cs
                then m2(''tpep_dropoff_datetime'' \<mapsto> ''dropoff_datetime'') else m2);
          m4 = (if ''lpep_dropoff_datetime'' \<in> set cs
                then m3(''lpep_dropoff_datetime'' \<mapsto> ''dropoff_datetime'') else m3);
          m5 = (if ''pulocationid'' \<in> set cs
                then m4(''pulocationid'' \<mapsto> ''pickup_location_id'') else m4);
          m6 = (if ''dolocationid'' \<in> set cs
                then m5(''dolocationid'' \<mapsto> ''dropoff_location_id'') else m5)
      in m6)"

text \<open>
  \<^verbatim>\<open>if c in df.columns: df[c] = pd.to_datetime(df[c], errors="coerce")\<close>. With one
  column labelled \<open>c\<close>, \<^verbatim>\<open>df[c]\<close> is a series; \<open>to_datetime\<close> is the conversion of a
  whole column, which may raise (on values of mixed time zones, for one) and otherwise
  gives a timezone-naive or a timezone-aware column: a column that is timezone-aware
  stays so. With several columns labelled \<open>c\<close>, \<^verbatim>\<open>df[c]\<close> is a table and
  \<^verbatim>\<open>pd.to_datetime\<close> raises \<^verbatim>\<open>ValueError\<close> (duplicate keys).
\<close>

definition coerce_datetime ::
  "('a cell list \<Rightarrow> error + dt_column) \<Rightarrow> string \<Rightarrow> 'a dataframe \<Rightarrow> error + 'a dataframe"
where
  "coerce_datetime to_datetime c df =
     (if c \<in> set (columns df)
      then (case positions c (columns df) of
              [i] \<Rightarrow> (case to_datetime (column i df) of
                        Inl e \<Rightarrow> Inl e
                      | Inr s \<Rightarrow> Inr (set_series i s df))
            | _ \<Rightarrow> Inl ValueError)
      else Inr df)"

definition standardize_schema ::
  "('a cell list \<Rightarrow> error + dt_column) \<Rightarrow> 'a dataframe \<Rightarrow> string \<Rightarrow> error + 'a dataframe"
where
  "standardize_schema to_datetime df taxi_type =
     (if df_empty df then Inr df
      else
        let df1 = rename (lower_map (columns df)) df;
            rename_map = build_rename_map (columns df1);
            df2 = rename rename_map df1
        in case coerce_datetime to_datetime ''pickup_datetime'' df2 of
             Inl e \<Rightarrow> Inl e
           | Inr df3 \<Rightarrow>
               (case coerce_datetime to_datetime ''dropoff_datetime'' df3 of
                  Inl e \<Rightarrow> Inl e
                | Inr df4 \<Rightarrow> Inr (set_scalar ''taxi_type'' (Text taxi_type) df4)))"

text \<open>
  Vocabulary for the statements about the normalizer: the label a source column ends
  up under, and the cells a coerced column holds.
\<close>

definition norm_name :: "string \<Rightarrow> string" where
  "norm_name c =
     (let l = lower c in
      if l = ''tpep_pickup_datetime'' \<or> l = ''lpep_pickup_datetime'' then ''pickup_datetime''
      else if l = ''tpep_dropoff_datetime'' \<or> l = ''lpep_dropoff_datetime'' then ''dropoff_datetime''
      else if l = ''pulocationid'' then ''pickup_location_id''
      else if l = ''dolocationid'' then ''dropoff_location_id''
      else l)"

text \<open>The table after the two renames of the normalizer.\<close>

abbreviation renamed :: "'a dataframe \<Rightarrow> 'a dataframe" where
  "renamed df \<equiv>
     rename (build_rename_map (columns (rename (lower_map (columns df)) df)))
       (rename (lower_map (columns df)) df)"

text \<open>The cells of a timezone-naive converted column, and those of a timezone-aware one.\<close>

fun ts_or_null :: "'a cell \<Rightarrow> bool" where
  "ts_or_null Null = True"
| "ts_or_null (Timestamp d n) = True"
| "ts_or_null (UtcStamp t) = False"
| "ts_or_null UtcNull = False"
| "ts_or_null (Text s) = False"
| "ts_or_null (Raw x) = False"

fun tz_aware :: "'a cell \<Rightarrow> bool" where
  "tz_aware (UtcStamp t) = True"
| "tz_aware UtcNull = True"
| "tz_aware Null = False"
| "tz_aware (Timestamp d n) = False"
| "tz_aware (Text s) = False"
| "tz_aware (Raw x) = False"

text \<open>A cell lies in the window: it is a timestamp on a day \<open>d\<close> with \<open>start \<le> d < end\<close>.\<close>

fun within :: "date \<Rightarrow> date \<Rightarrow> 'a cell \<Rightarrow> bool" where
  "within start_date end_date (Timestamp d n) = (date_ge d start_date \<and> date_lt d end_date)"
| "within start_date end_date Null = False"
| "within start_date end_date (UtcStamp t) = False"
| "within start_date end_date UtcNull = False"
| "within start_date end_date (Text s) = False"
| "within start_date end_date (Raw x) = False"

subsection \<open>The window filter (lines 165 to 170 of \<^verbatim>\<open>materialize\<close>)\<close>

text \<open>
  \<^verbatim>\<open>pd.Timestamp(d)\<close> of a date is midnight of that day, timezone-naive. Timestamps
  compare as instants; a comparison with a null of a naive column is false; a value
  of a timezone-aware column, missing or not, does not compare with a naive timestamp
  (\<^verbatim>\<open>TypeError\<close>), nor does a value that is no timestamp.
\<close>

definition ts_lt :: "date \<times> nat \<Rightarrow> date \<times> nat \<Rightarrow> bool" where
  "ts_lt a b = (date_lt (fst a) (fst b) \<or> (fst a = fst b \<and> snd a < snd b))"

fun in_window :: "date \<Rightarrow> date \<Rightarrow> 'a cell \<Rightarrow> error + bool" where
  "in_window start_date end_date Null = Inr False"
| "in_window start_date end_date (Timestamp d n) =
     Inr (\<not> ts_lt (d, n) (start_date, 0) \<and> ts_lt (d, n) (end_date, 0))"
| "in_window start_date end_date (UtcStamp t) = Inl TypeError"
| "in_window start_date end_date UtcNull = Inl TypeError"
| "in_window start_date end_date (Text s) = Inl TypeError"
| "in_window start_date end_date (Raw x) = Inl TypeError"

fun window_mask :: "date \<Rightarrow> date \<Rightarrow> 'a cell list \<Rightarrow> error + bool list" where
  "window_mask start_date end_date [] = Inr []"
| "window_mask start_date end_date (c # cs) =
     (case in_window start_date end_date c of
        Inl e \<Rightarrow> Inl e
      | Inr b \<Rightarrow> (case window_mask start_date end_date cs of
                    Inl e \<Rightarrow> Inl e
                  | Inr bs \<Rightarrow> Inr (b # bs)))"

text \<open>\<^verbatim>\<open>df.loc[mask]\<close>: the rows where the mask is true, in order.\<close>

definition loc :: "bool list \<Rightarrow> 'a dataframe \<Rightarrow> 'a dataframe" where
  "loc msk df = df\<lparr>rows := map snd (filter fst (zip msk (rows df)))\<rparr>"

definition window_filter :: "'a dataframe \<Rightarrow> date \<Rightarrow> date \<Rightarrow> error + 'a dataframe" where
  "window_filter df start_date end_date =
     (if ''pickup_datetime'' \<in> set (columns df)
      then (case positions ''pickup_datetime'' (columns df) of
              [i] \<Rightarrow> (case window_mask start_date end_date (column i df) of
                        Inl e \<Rightarrow> Inl e
                      | Inr msk \<Rightarrow> Inr (loc msk df))
            | _ \<Rightarrow> Inl ValueError)
      else Inr df)"

subsection \<open>The outside world\<close>

text \<open>
  What the module obtains from outside: the parsing of an ISO date
  (\<^verbatim>\<open>date.fromisoformat\<close>), the decoding of the \<^verbatim>\<open>BRUIN_VARS\<close> object (\<^verbatim>\<open>json.loads\<close>, read
  as a dictionary from keys to lists of strings), the HTTP request (\<^verbatim>\<open>requests.get\<close>,
  which answers or raises; the \<open>k\<close>-th request of a run may be answered differently from
  an earlier one to the same URL), the decoding of a payload (\<^verbatim>\<open>pd.read_parquet\<close>),
  \<^verbatim>\<open>pd.to_datetime\<close> on a column, the common storage type \<^verbatim>\<open>pd.concat\<close> gives the
  values of a stacked column (\<open>upcast\<close>: integers become floating point next to a
  missing value, for one), and the clock (\<open>utcnow k\<close> is the \<open>k\<close>-th reading of a run).
  The state of a run is what it printed and how many requests and clock readings it
  made.
\<close>

record http_response =
  status_code :: int
  content :: string

record 'a extern =
  fromisoformat :: "string \<Rightarrow> error + date"
  json_loads :: "string \<Rightarrow> error + (string \<rightharpoonup> string list)"
  requests_get :: "nat \<Rightarrow> string \<Rightarrow> error + http_response"
  read_parquet :: "string \<Rightarrow> error + 'a dataframe"
  to_datetime :: "'a cell list \<Rightarrow> error + dt_column"
  upcast :: "'a cell list \<Rightarrow> 'a cell list"
  utcnow :: "nat \<Rightarrow> int"

record state =
  stdout :: "string list"
  requests_made :: nat
  clock_reads :: nat

definition print :: "string \<Rightarrow> state \<Rightarrow> state" where
  "print line s = s\<lparr>stdout := stdout s @ [line]\<rparr>"

subsection \<open>The resource fetcher \<^verbatim>\<open>_load_parquet_from_url\<close>\<close>

definition load_parquet_from_url ::
  "'a extern \<Rightarrow> string \<Rightarrow> state \<Rightarrow> (error + 'a dataframe) \<times> state"
where
  "load_parquet_from_url ext url s =
     (let s1 = s\<lparr>requests_made := Suc (requests_made s)\<rparr> in
      case requests_get ext (requests_made s) url of
        Inl e \<Rightarrow> (Inl e, s1)
      | Inr resp \<Rightarrow>
          if status_code resp \<noteq> 200
          then (Inr (new_frame []),
                print (''Skipping URL '' @ url @ '' (status='' @ str_int (status_code resp) @ '')'') s1)
          else (read_parquet ext (content resp), s1))"

subsection \<open>The aggregator \<^verbatim>\<open>materialize\<close>\<close>

definition canonical_columns :: "string list" where
  "canonical_columns =
     [''taxi_type'', ''pickup_datetime'', ''dropoff_datetime'', ''pickup_location_id'',
      ''dropoff_location_id'', ''passenger_count'', ''trip_distance'', ''fare_amount'',
      ''total_amount'', ''payment_type'', ''extracted_at'']"

definition month_url :: "string \<Rightarrow> date \<Rightarrow> string" where
  "month_url taxi_type month_start =
     BASE_URL @ ''/'' @ taxi_type @ ''_tripdata_'' @ str_int (year month_start) @ ''-'' @
     fmt_02d (month month_start) @ ''.parquet''"

text \<open>
  The body of the inner loop, for one taxi type and one month start: \<open>frames\<close> is the
  list accumulated so far; \<^verbatim>\<open>continue\<close> returns it as it is.
\<close>

definition month_body ::
  "'a extern \<Rightarrow> date \<Rightarrow> date \<Rightarrow> string \<Rightarrow> date \<Rightarrow> 'a dataframe list \<Rightarrow> state \<Rightarrow>
   (error + 'a dataframe list) \<times> state"
where
  "month_body ext start_date end_date taxi_type month_start frames s =
     (let url = month_url taxi_type month_start;
          s1 = print (''Fetching '' @ url) s
      in case load_parquet_from_url ext url s1 of
           (Inl e, s2) \<Rightarrow> (Inl e, s2)
         | (Inr df, s2) \<Rightarrow>
             if df_empty df then (Inr frames, s2)
             else (case standardize_schema (to_datetime ext) df taxi_type of
                     Inl e \<Rightarrow> (Inl e, s2)
                   | Inr df1 \<Rightarrow>
                       (case window_filter df1 start_date end_date of
                          Inl e \<Rightarrow> (Inl e, s2)
                        | Inr df2 \<Rightarrow>
                            if df_empty df2 then (Inr frames, s2)
                            else (Inr (frames @
                                    [set_scalar ''extracted_at''
                                       (UtcStamp (utcnow ext (clock_reads s2))) df2]),
                                  s2\<lparr>clock_reads := Suc (clock_reads s2)\<rparr>))))"

fun for_months ::
  "'a extern \<Rightarrow> date \<Rightarrow> date \<Rightarrow> string \<Rightarrow> date list \<Rightarrow> 'a dataframe list \<Rightarrow> state \<Rightarrow>
   (error + 'a dataframe list) \<times> state"
where
  "for_months ext start_date end_date taxi_type [] frames s = (Inr frames, s)"
| "for_months ext start_date end_date taxi_type (m # ms) frames s =
     (case month_body ext start_date end_date taxi_type m frames s of
        (Inl e, s') \<Rightarrow> (Inl e, s')
      | (Inr frames', s') \<Rightarrow> for_months ext start_date end_date taxi_type ms frames' s')"

text \<open>
  The inner \<^verbatim>\<open>for\<close> over the generator: the body runs on each date the generator
  yields; an exception of the generator surfaces after them.
\<close>

definition for_month_starts ::
  "'a extern \<Rightarrow> date \<Rightarrow> date \<Rightarrow> string \<Rightarrow> 'a dataframe list \<Rightarrow> state \<Rightarrow>
   (error + 'a dataframe list) \<times> state"
where
  "for_month_starts ext start_date end_date taxi_type frames s =
     (case month_starts start_date end_date of
        (ms, r) \<Rightarrow>
          (case for_months ext start_date end_date taxi_type ms frames s of
             (Inl e, s') \<Rightarrow> (Inl e, s')
           | (Inr frames', s') \<Rightarrow>
               (case r of None \<Rightarrow> (Inr frames', s') | Some e \<Rightarrow> (Inl e, s'))))"

fun for_taxi_types ::
  "'a extern \<Rightarrow> date \<Rightarrow> date \<Rightarrow> string list \<Rightarrow> 'a dataframe list \<Rightarrow> state \<Rightarrow>
   (error + 'a dataframe list) \<times> state"
where
  "for_taxi_types ext start_date end_date [] frames s = (Inr frames, s)"
| "for_taxi_types ext start_date end_date (t # ts) frames s =
     (case for_month_starts ext start_date end_date t frames s of
        (Inl e, s') \<Rightarrow> (Inl e, s')
      | (Inr frames', s') \<Rightarrow> for_taxi_types ext start_date end_date ts frames' s')"

text \<open>
  \<^verbatim>\<open>pd.concat(frames, ignore_index=True)\<close> on a list that is not empty. Frames with the
  same labels are stacked. Otherwise the result has the union of the labels in the
  order of their first appearance, a frame's missing columns filled with nulls, and
  repeated labels in a frame cannot be aligned (\<^verbatim>\<open>InvalidIndexError\<close>). Each column of
  the result is stored under one type: \<open>recast\<close> replaces the stacked column at
  position \<open>j\<close> by what \<open>upcast\<close> makes of it.
\<close>

definition union_columns :: "'a dataframe list \<Rightarrow> string list" where
  "union_columns frames =
     fold (\<lambda>c acc. if c \<in> set acc then acc else acc @ [c]) (concat (map columns frames)) []"

definition reindex :: "string list \<Rightarrow> string list \<Rightarrow> 'a cell list \<Rightarrow> 'a cell list" where
  "reindex src_cols dst_cols r =
     map (\<lambda>c. case positions c src_cols of [] \<Rightarrow> Null | i # _ \<Rightarrow> r ! i) dst_cols"

definition recast ::
  "('a cell list \<Rightarrow> 'a cell list) \<Rightarrow> nat \<Rightarrow> 'a cell list list \<Rightarrow> 'a cell list list"
where
  "recast up j rs =
     (let col = up (map (\<lambda>r. r ! j) rs)
      in map (\<lambda>(k, r). r[j := (if k < length col then col ! k else Null)]) (enumerate 0 rs))"

definition recast_all ::
  "('a cell list \<Rightarrow> 'a cell list) \<Rightarrow> nat \<Rightarrow> 'a cell list list \<Rightarrow> 'a cell list list"
where
  "recast_all up n rs = fold (recast up) [0..<n] rs"

definition concat_frames ::
  "('a cell list \<Rightarrow> 'a cell list) \<Rightarrow> 'a dataframe list \<Rightarrow> error + 'a dataframe"
where
  "concat_frames up frames =
     (if list_all (\<lambda>f. columns f = columns (hd frames)) frames
      then Inr \<lparr>columns = columns (hd frames),
                rows = recast_all up (length (columns (hd frames))) (concat (map rows frames))\<rparr>
      else if list_ex (\<lambda>f. \<not> distinct (columns f)) frames then Inl InvalidIndexError
      else Inr \<lparr>columns = union_columns frames,
                rows = recast_all up (length (union_columns frames))
                         (concat (map (\<lambda>f. map (reindex (columns f) (union_columns frames)) (rows f))
                                      frames))\<rparr>)"

text \<open>The end of \<^verbatim>\<open>materialize\<close>, lines 179 to 197.\<close>

definition finish ::
  "('a cell list \<Rightarrow> 'a cell list) \<Rightarrow> 'a dataframe list \<Rightarrow> error + 'a dataframe"
where
  "finish up frames =
     (if frames = [] then Inr (new_frame canonical_columns) else concat_frames up frames)"

text \<open>\<^verbatim>\<open>not v\<close> for the value of \<^verbatim>\<open>os.environ.get\<close>: unset or the empty string.\<close>

definition unset :: "string option \<Rightarrow> bool" where
  "unset v = (case v of None \<Rightarrow> True | Some x \<Rightarrow> x = [])"

text \<open>Lines 141 to 151: the window and the taxi types, read from the environment.\<close>

definition read_config ::
  "'a extern \<Rightarrow> (string \<rightharpoonup> string) \<Rightarrow> error + (date \<times> date \<times> string list)"
where
  "read_config ext environ =
     (let start_date_str = environ ''BRUIN_START_DATE'';
          end_date_str = environ ''BRUIN_END_DATE''
      in if unset start_date_str \<or> unset end_date_str then Inl RuntimeError
         else
           (case fromisoformat ext (the start_date_str) of
              Inl e \<Rightarrow> Inl e
            | Inr start_date \<Rightarrow>
           (case fromisoformat ext (the end_date_str) of
              Inl e \<Rightarrow> Inl e
            | Inr end_date \<Rightarrow>
           (case json_loads ext (case environ ''BRUIN_VARS'' of None \<Rightarrow> ''{}'' | Some v \<Rightarrow> v) of
              Inl e \<Rightarrow> Inl e
            | Inr vars_json \<Rightarrow>
                Inr (start_date, end_date,
                     case vars_json ''taxi_types'' of None \<Rightarrow> [''yellow''] | Some ts \<Rightarrow> ts)))))"

definition materialize ::
  "'a extern \<Rightarrow> (string \<rightharpoonup> string) \<Rightarrow> state \<Rightarrow> (error + 'a dataframe) \<times> state"
where
  "materialize ext environ s =
     (case read_config ext environ of
        Inl e \<Rightarrow> (Inl e, s)
      | Inr (start_date, end_date, taxi_types) \<Rightarrow>
          (case for_taxi_types ext start_date end_date taxi_types [] s of
             (Inl e, s') \<Rightarrow> (Inl e, s')
           | (Inr frames, s') \<Rightarrow> (finish (upcast ext) frames, s')))"

subsection \<open>A sample run\<close>

text \<open>
  Concrete inputs for the instances below: the window 2023-01-01 to 2023-03-01, the
  default taxi type, a January file and a February file of one trip each, and a clock
  that advances between two readings.
\<close>

text \<open>
  The sample conversion: a column with timezone-aware values stays timezone-aware, or
  is refused when it also holds naive timestamps; any other column becomes
  timezone-naive; what is no timestamp becomes a missing value.
\<close>

definition demo_to_datetime :: "nat cell list \<Rightarrow> error + dt_column" where
  "demo_to_datetime cs =
     (if list_ex tz_aware cs
      then (if list_ex (\<lambda>c. case c of Timestamp d n \<Rightarrow> True | _ \<Rightarrow> False) cs
            then Inl ValueError
            else Inr (Aware (map (\<lambda>c. case c of UtcStamp t \<Rightarrow> Some t | _ \<Rightarrow> None) cs)))
      else Inr (Naive (map (\<lambda>c. case c of Timestamp d n \<Rightarrow> Some (d, n) | _ \<Rightarrow> None) cs)))"

definition demo_january :: "nat dataframe" where
  "demo_january =
     \<lparr>columns = [''tpep_pickup_datetime'', ''PULocationID'', ''fare_amount''],
      rows = [[Timestamp \<lparr>year = 2023, month = 1, day = 5\<rparr> 7, Raw 141, Raw 12],
              [Null, Raw 7, Raw 3]]\<rparr>"

definition demo_february :: "nat dataframe" where
  "demo_february =
     \<lparr>columns = [''tpep_pickup_datetime'', ''PULocationID'', ''fare_amount''],
      rows = [[Timestamp \<lparr>year = 2023, month = 2, day = 9\<rparr> 0, Raw 48, Raw 30]]\<rparr>"

text \<open>The January file once normalized for the taxi type \<^verbatim>\<open>yellow\<close>.\<close>

definition demo_january_normalized :: "nat dataframe" where
  "demo_january_normalized =
     \<lparr>columns = [''pickup_datetime'', ''pickup_location_id'', ''fare_amount'', ''taxi_type''],
      rows = [[Timestamp \<lparr>year = 2023, month = 1, day = 5\<rparr> 7, Raw 141, Raw 12, Text ''yellow''],
              [Null, Raw 7, Raw 3, Text ''yellow'']]\<rparr>"

text \<open>A file whose pickup column is timezone-aware, raw and normalized.\<close>

definition demo_utc_raw :: "nat dataframe" where
  "demo_utc_raw =
     \<lparr>columns = [''lpep_pickup_datetime'', ''fare_amount''],
      rows = [[UtcStamp 1673000000, Raw 9]]\<rparr>"

definition demo_utc_normalized :: "nat dataframe" where
  "demo_utc_normalized =
     \<lparr>columns = [''pickup_datetime'', ''fare_amount'', ''taxi_type''],
      rows = [[UtcStamp 1673000000, Raw 9, Text ''green'']]\<rparr>"


definition demo_environ :: "string \<rightharpoonup> string" where
  "demo_environ =
     [''BRUIN_START_DATE'' \<mapsto> ''2023-01-01'', ''BRUIN_END_DATE'' \<mapsto> ''2023-03-01'']"

definition demo_extern :: "nat extern" where
  "demo_extern =
     \<lparr>fromisoformat = (\<lambda>v. if v = ''2023-01-01'' then Inr \<lparr>year = 2023, month = 1, day = 1\<rparr>
                            else if v = ''2023-03-01'' then Inr \<lparr>year = 2023, month = 3, day = 1\<rparr>
                            else Inl ValueError),
      json_loads = (\<lambda>v. if v = ''{}'' then Inr Map.empty else Inl JSONDecodeError),
      requests_get = (\<lambda>k url. if k = 0 then Inr \<lparr>status_code = 200, content = ''jan''\<rparr>
                               else Inr \<lparr>status_code = 200, content = ''feb''\<rparr>),
      read_parquet = (\<lambda>c. if c = ''jan'' then Inr demo_january
                           else if c = ''feb'' then Inr demo_february else Inl ArrowInvalid),
      to_datetime = demo_to_datetime,
      upcast = (\<lambda>col. col),
      utcnow = (\<lambda>k. 1000 + int k)\<rparr>"

text \<open>The same world with every file missing: each request is answered 404.\<close>

definition demo_extern_404 :: "nat extern" where
  "demo_extern_404 =
     demo_extern\<lparr>requests_get := (\<lambda>k url. Inr \<lparr>status_code = 404, content = []\<rparr>)\<rparr>"

text \<open>The same world with the February file missing.\<close>

definition demo_extern_feb_404 :: "nat extern" where
  "demo_extern_feb_404 =
     demo_extern\<lparr>requests_get :=
       (\<lambda>k url. if k = 0 then Inr \<lparr>status_code = 200, content = ''jan''\<rparr>
                 else Inr \<lparr>status_code = 404, content = []\<rparr>)\<rparr>"

definition demo_environ_no_end :: "string \<rightharpoonup> string" where
  "demo_environ_no_end = [''BRUIN_START_DATE'' \<mapsto> ''2023-01-01'']"

definition demo_state :: state where
  "demo_state = \<lparr>stdout = [], requests_made = 0, clock_reads = 0\<rparr>"

section \<open>Properties\<close>

subsection \<open>Dates and month indices\<close>

text \<open>
  A month start is numbered \<open>12 * year + (month - 1)\<close>; the enumerator walks these
  numbers one by one, from the number of the month of \<open>start\<close> up to \<open>hi end_date\<close>.
\<close>

lemma valid_date_iff:
  "valid_date d \<longleftrightarrow> 1 \<le> year d \<and> year d \<le> 9999 \<and> 1 \<le> month d \<and> month d \<le> 12 \<and>
     1 \<le> day d \<and> day d \<le> days_in_month (year d) (month d)"
  by (simp add: valid_date_def mk_date_def)

lemma mk_date_first:
  "1 \<le> y \<Longrightarrow> y \<le> 9999 \<Longrightarrow> 1 \<le> m \<Longrightarrow> m \<le> 12 \<Longrightarrow>
   mk_date y m 1 = Inr (month_of_index (midx y m))"
  by (simp add: mk_date_def days_in_month_def month_of_index_def midx_def)

lemma mk_date_first_invalid:
  "\<not> (1 \<le> y \<and> y \<le> 9999 \<and> 1 \<le> m \<and> m \<le> 12) \<Longrightarrow> mk_date y m 1 = Inl ValueError"
  by (auto simp: mk_date_def)

lemma date_lt_month_of_index:
  assumes "valid_date e"
  shows "date_lt (month_of_index k) e \<longleftrightarrow> k < hi e"
proof -
  from assms have b: "1 \<le> year e" "1 \<le> month e" "month e \<le> 12" "1 \<le> day e"
    by (simp_all add: valid_date_iff)
  define q where "q = int k div 12"
  define r where "r = int k mod 12"
  have k: "int k = q * 12 + r" and r: "0 \<le> r" "r < 12"
    by (simp_all add: q_def r_def)
  have "date_lt (month_of_index k) e \<longleftrightarrow>
        (q < year e \<or> (q = year e \<and> (r + 1 < month e \<or> (r + 1 = month e \<and> 1 < day e))))"
    by (simp add: date_lt_def month_of_index_def q_def r_def)
  also have "\<dots> \<longleftrightarrow> int k < int (hi e)"
    using b r k by (auto simp: hi_def midx_def)
  finally show ?thesis by simp
qed

lemma midx_succ:
  "1 \<le> y \<Longrightarrow> 1 \<le> m \<Longrightarrow> m \<le> 12 \<Longrightarrow>
   (if m + 1 > 12 then midx (y + 1) 1 else midx y (m + 1)) = Suc (midx y m)"
  by (auto simp: midx_def)

lemma hi_bound: "valid_date e \<Longrightarrow> hi e \<le> 120000"
  by (auto simp: valid_date_iff hi_def midx_def)

lemma hi_last: "valid_date e \<Longrightarrow> date_lt last_month e \<longleftrightarrow> hi e = 120000"
  by (auto simp: valid_date_iff hi_def midx_def date_lt_def last_month_def)

lemma month_loop_char:
  "valid_date e \<Longrightarrow> 1 \<le> y \<Longrightarrow> y \<le> 9999 \<Longrightarrow> 1 \<le> m \<Longrightarrow> m \<le> 12 \<Longrightarrow>
   month_loop y m e =
     (map month_of_index [midx y m ..< hi e],
      if date_lt last_month e then Some ValueError else None)"
proof (induction y m e rule: month_loop.induct)
  case (1 y m e)
  let ?cur = "month_of_index (midx y m)"
  have cur: "mk_date y m 1 = Inr ?cur"
    using "1.prems" by (simp add: mk_date_first)
  have top: "midx y m \<le> 119999"
    using "1.prems" by (simp add: midx_def)
  show ?case
  proof (cases "date_ge ?cur e")
    case True
    then have ge: "hi e \<le> midx y m"
      using "1.prems"(1) by (simp add: date_ge_def date_lt_month_of_index)
    with top have "hi e \<noteq> 120000" by simp
    then have "\<not> date_lt last_month e"
      using "1.prems"(1) by (simp add: hi_last)
    with True cur ge show ?thesis
      by (subst month_loop.simps) simp
  next
    case False
    then have lt: "midx y m < hi e"
      using "1.prems"(1) by (simp add: date_ge_def date_lt_month_of_index)
    have unfold: "[midx y m ..< hi e] = midx y m # [Suc (midx y m) ..< hi e]"
      using lt by (simp add: upt_conv_Cons)
    show ?thesis
    proof (cases "m + 1 > 12")
      case wrap: True
      then have m12: "m = 12" using "1.prems" by simp
      show ?thesis
      proof (cases "y = 9999")
        case True
        have "mk_date (y + 1) 1 1 = Inl ValueError"
          using True by (simp add: mk_date_def)
        then have nxt: "month_loop (y + 1) 1 e = ([], Some ValueError)"
          by (subst month_loop.simps) simp
        have "midx y m = 119999" using True m12 by (simp add: midx_def)
        with lt hi_bound [OF "1.prems"(1)] have h: "hi e = 120000" by simp
        then have "date_lt last_month e" using "1.prems"(1) by (simp add: hi_last)
        with False cur wrap nxt h \<open>midx y m = 119999\<close> show ?thesis
          by (subst month_loop.simps) simp
      next
        case False
        then have "y + 1 \<le> 9999" "1 \<le> y + 1" using "1.prems" by simp_all
        then have ih: "month_loop (y + 1) 1 e =
            (map month_of_index [midx (y + 1) 1 ..< hi e],
             if date_lt last_month e then Some ValueError else None)"
          using "1.IH"(1) [OF cur \<open>\<not> date_ge ?cur e\<close> wrap] "1.prems"(1) by simp
        have "midx (y + 1) 1 = Suc (midx y m)"
          using midx_succ [of y m] "1.prems" wrap by simp
        with ih cur wrap \<open>\<not> date_ge ?cur e\<close> unfold show ?thesis
          by (subst month_loop.simps) simp
      qed
    next
      case nowrap: False
      then have "m + 1 \<le> 12" "1 \<le> m + 1" using "1.prems" by simp_all
      then have ih: "month_loop y (m + 1) e =
            (map month_of_index [midx y (m + 1) ..< hi e],
             if date_lt last_month e then Some ValueError else None)"
        using "1.IH"(2) [OF cur False nowrap] "1.prems" by simp
      have "midx y (m + 1) = Suc (midx y m)"
        using midx_succ [of y m] "1.prems" nowrap by simp
      with ih cur nowrap False unfold show ?thesis
        by (subst month_loop.simps) simp
    qed
  qed
qed

lemma month_of_index_midx:
  "1 \<le> m \<Longrightarrow> m \<le> 12 \<Longrightarrow> 0 \<le> y \<Longrightarrow> month_of_index (midx y m) = \<lparr>year = y, month = m, day = 1\<rparr>"
  by (simp add: month_of_index_def midx_def)

lemma midx_month_of_index:
  "midx (year (month_of_index k)) (month (month_of_index k)) = k"
  by (simp add: month_of_index_def midx_def)

lemma is_month_start_index:
  "is_month_start d \<longleftrightarrow> (\<exists>k. 12 \<le> k \<and> k < 120000 \<and> d = month_of_index k)"
proof
  assume "is_month_start d"
  then have v: "1 \<le> year d" "year d \<le> 9999" "1 \<le> month d" "month d \<le> 12" "day d = 1"
    by (simp_all add: is_month_start_def valid_date_iff)
  then have "d = month_of_index (midx (year d) (month d))"
    by (simp add: month_of_index_midx)
  moreover have "12 \<le> midx (year d) (month d)" "midx (year d) (month d) < 120000"
    using v by (simp_all add: midx_def)
  ultimately show "\<exists>k. 12 \<le> k \<and> k < 120000 \<and> d = month_of_index k" by blast
next
  assume "\<exists>k. 12 \<le> k \<and> k < 120000 \<and> d = month_of_index k"
  then obtain k where k: "12 \<le> k" "k < 120000" "d = month_of_index k" by blast
  then show "is_month_start d"
    by (auto simp: is_month_start_def valid_date_iff month_of_index_def days_in_month_def)
qed

lemma valid_first_of_month: "valid_date d \<Longrightarrow> valid_date (first_of_month d)"
  by (simp add: valid_date_iff first_of_month_def days_in_month_def)

lemma hi_first_of_month: "hi (first_of_month d) = midx (year d) (month d)"
  by (simp add: hi_def first_of_month_def)

lemma month_starts_char:
  assumes "valid_date start" "valid_date e"
  shows "month_starts start e =
     (map month_of_index [midx (year start) (month start) ..< hi e],
      if date_lt last_month e then Some ValueError else None)"
  using assms by (simp add: month_starts_def month_loop_char valid_date_iff)

lemma midx_lower: "valid_date d \<Longrightarrow> 12 \<le> midx (year d) (month d)"
  unfolding valid_date_iff midx_def by linarith

lemma set_month_starts:
  assumes "valid_date start" "valid_date e"
  shows "set (fst (month_starts start e)) =
     {m. is_month_start m \<and> date_ge m (first_of_month start) \<and> date_lt m e}"
proof -
  let ?a = "midx (year start) (month start)"
  have ge: "date_ge (month_of_index k) (first_of_month start) \<longleftrightarrow> ?a \<le> k" for k
    using valid_first_of_month [OF assms(1)]
    by (simp add: date_ge_def date_lt_month_of_index hi_first_of_month not_less)
  have lt: "date_lt (month_of_index k) e \<longleftrightarrow> k < hi e" for k
    using assms(2) by (rule date_lt_month_of_index)
  have "set (fst (month_starts start e)) = month_of_index ` {?a ..< hi e}"
    using assms by (simp add: month_starts_char)
  also have "\<dots> = {m. is_month_start m \<and> date_ge m (first_of_month start) \<and> date_lt m e}"
  proof (rule set_eqI)
    fix m
    show "m \<in> month_of_index ` {?a ..< hi e} \<longleftrightarrow>
          m \<in> {m. is_month_start m \<and> date_ge m (first_of_month start) \<and> date_lt m e}"
    proof
      assume "m \<in> month_of_index ` {?a ..< hi e}"
      then obtain k where k: "m = month_of_index k" "?a \<le> k" "k < hi e" by auto
      have "12 \<le> k" using k(2) midx_lower [OF assms(1)] by simp
      moreover have "k < 120000" using k(3) hi_bound [OF assms(2)] by simp
      ultimately have "is_month_start m" using k(1) by (auto simp: is_month_start_index)
      with k ge lt show "m \<in> {m. is_month_start m \<and> date_ge m (first_of_month start) \<and> date_lt m e}"
        by simp
    next
      assume "m \<in> {m. is_month_start m \<and> date_ge m (first_of_month start) \<and> date_lt m e}"
      then have m: "is_month_start m" "date_ge m (first_of_month start)" "date_lt m e" by simp_all
      from m(1) obtain k where k: "m = month_of_index k" by (auto simp: is_month_start_index)
      with m ge lt have "?a \<le> k" "k < hi e" by simp_all
      with k show "m \<in> month_of_index ` {?a ..< hi e}" by auto
    qed
  qed
  finally show ?thesis .
qed

lemma date_lt_index_mono: "i < j \<Longrightarrow> date_lt (month_of_index i) (month_of_index j)"
proof -
  assume "i < j"
  have "int i = (int i div 12) * 12 + int i mod 12" "int j = (int j div 12) * 12 + int j mod 12"
    by simp_all
  moreover have "0 \<le> int i mod 12" "int i mod 12 < 12" "0 \<le> int j mod 12" "int j mod 12 < 12"
    by simp_all
  ultimately have "int i div 12 < int j div 12 \<or>
      (int i div 12 = int j div 12 \<and> int i mod 12 < int j mod 12)"
    using \<open>i < j\<close> by (smt (verit) of_nat_less_iff)
  then show ?thesis by (auto simp: date_lt_def month_of_index_def)
qed

lemma sorted_month_indices: "sorted_wrt date_lt (map month_of_index [a ..< b])"
  by (simp add: sorted_wrt_map sorted_wrt_iff_nth_less date_lt_index_mono)

lemma succ_div_mod_wrap:
  "(k::int) mod 12 = 11 \<Longrightarrow> (1 + k) mod 12 = 0 \<and> (1 + k) div 12 = k div 12 + 1"
proof -
  assume a: "k mod 12 = 11"
  have "k = 12 * (k div 12) + k mod 12" by simp
  with a have "1 + k = 12 * (k div 12 + 1) + 0" by simp
  then show ?thesis
    using int_div_pos_eq [of "1 + k" 12 "k div 12 + 1" 0]
          int_mod_pos_eq [of "1 + k" 12 "k div 12 + 1" 0] by simp
qed

lemma succ_div_mod_step:
  "(k::int) mod 12 \<noteq> 11 \<Longrightarrow> (1 + k) mod 12 = k mod 12 + 1 \<and> (1 + k) div 12 = k div 12"
proof -
  assume a: "k mod 12 \<noteq> 11"
  have r: "0 \<le> k mod 12" "k mod 12 < 12" by simp_all
  with a have r1: "0 \<le> k mod 12 + 1" "k mod 12 + 1 < 12" by simp_all
  have "k = 12 * (k div 12) + k mod 12" by simp
  then have e: "1 + k = 12 * (k div 12) + (k mod 12 + 1)" by simp
  show ?thesis
    using int_div_pos_eq [OF e r1] int_mod_pos_eq [OF e r1] by simp
qed

lemma next_month_index: "next_month (month_of_index k) = month_of_index (Suc k)"
proof (cases "int k mod 12 = 11")
  case True
  with succ_div_mod_wrap [OF True] show ?thesis
    by (simp add: next_month_def month_of_index_def)
next
  case False
  have "int k mod 12 < 12" by simp
  with False succ_div_mod_step [OF False] show ?thesis
    by (simp add: next_month_def month_of_index_def)
qed

lemma gap_free_month_indices:
  "Suc i < length (map month_of_index [a ..< b]) \<Longrightarrow>
   map month_of_index [a ..< b] ! Suc i = next_month (map month_of_index [a ..< b] ! i)"
  by (simp add: next_month_index)


subsection \<open>The window enumerator\<close>

lemma month_starts_nonempty:
  assumes "valid_date start" "valid_date e" "date_lt start e"
  shows "midx (year start) (month start) < hi e"
proof -
  have "\<not> date_lt start (first_of_month start)"
    using assms(1) by (auto simp: date_lt_def first_of_month_def valid_date_iff)
  have "date_lt (first_of_month start) e"
    using assms by (auto simp: date_lt_def first_of_month_def valid_date_iff)
  moreover have "first_of_month start = month_of_index (midx (year start) (month start))"
    using assms(1) by (simp add: first_of_month_def month_of_index_midx valid_date_iff)
  ultimately show ?thesis
    using assms(2) by (simp add: date_lt_month_of_index)
qed

text \<open>
  C1. For dates \<open>start\<close> before \<open>end_date\<close>, \<open>_month_starts\<close> yields exactly the month
  starts \<open>m\<close> with first of the month of \<open>start\<close> \<open>\<le> m < end_date\<close>: the dates yielded are
  that set, they are strictly increasing (so none is repeated), each one is the calendar
  month after the one before it (no gap), and the first is the first day of the month
  of \<open>start\<close>. The generator ends normally whenever \<open>end_date\<close> is not after
  9999-12-01. For 2023-01-01 and 2023-03-01 the result is 2023-01-01, 2023-02-01.
\<close>

theorem month_starts_window:
  assumes "valid_date start" and "valid_date end_date" and "date_lt start end_date"
  shows "set (fst (month_starts start end_date)) =
           {m. is_month_start m \<and> date_ge m (first_of_month start) \<and> date_lt m end_date} \<and>
         sorted_wrt date_lt (fst (month_starts start end_date)) \<and>
         (\<forall>i. Suc i < length (fst (month_starts start end_date)) \<longrightarrow>
              fst (month_starts start end_date) ! Suc i =
                next_month (fst (month_starts start end_date) ! i)) \<and>
         fst (month_starts start end_date) \<noteq> [] \<and>
         hd (fst (month_starts start end_date)) = first_of_month start \<and>
         (date_ge last_month end_date \<longrightarrow> snd (month_starts start end_date) = None) \<and>
         (start = \<lparr>year = 2023, month = 1, day = 1\<rparr> \<and>
          end_date = \<lparr>year = 2023, month = 3, day = 1\<rparr> \<longrightarrow>
            month_starts start end_date =
              ([\<lparr>year = 2023, month = 1, day = 1\<rparr>, \<lparr>year = 2023, month = 2, day = 1\<rparr>], None))"
proof -
  let ?a = "midx (year start) (month start)"
  have ys: "fst (month_starts start end_date) = map month_of_index [?a ..< hi end_date]"
    using assms by (simp add: month_starts_char)
  have lt: "?a < hi end_date"
    using assms by (rule month_starts_nonempty)
  have set: "set (fst (month_starts start end_date)) =
      {m. is_month_start m \<and> date_ge m (first_of_month start) \<and> date_lt m end_date}"
    using assms(1,2) by (rule set_month_starts)
  have sorted: "sorted_wrt date_lt (fst (month_starts start end_date))"
    unfolding ys by (rule sorted_month_indices)
  have gaps: "\<forall>i. Suc i < length (fst (month_starts start end_date)) \<longrightarrow>
      fst (month_starts start end_date) ! Suc i =
        next_month (fst (month_starts start end_date) ! i)"
    unfolding ys using gap_free_month_indices by blast
  have ne: "fst (month_starts start end_date) \<noteq> []"
    unfolding ys using lt by simp
  have "hd (map month_of_index [?a ..< hi end_date]) = month_of_index ?a"
    using lt by (simp add: upt_conv_Cons)
  also have "\<dots> = first_of_month start"
    using assms(1) by (simp add: first_of_month_def month_of_index_midx valid_date_iff)
  finally have hd: "hd (fst (month_starts start end_date)) = first_of_month start"
    unfolding ys .
  have scen: "start = \<lparr>year = 2023, month = 1, day = 1\<rparr> \<and>
      end_date = \<lparr>year = 2023, month = 3, day = 1\<rparr> \<longrightarrow>
      month_starts start end_date =
        ([\<lparr>year = 2023, month = 1, day = 1\<rparr>, \<lparr>year = 2023, month = 2, day = 1\<rparr>], None)"
    by (simp add: month_starts_def month_loop.simps mk_date_def date_ge_def date_lt_def
        days_in_month_def)
  have normal: "date_ge last_month end_date \<longrightarrow> snd (month_starts start end_date) = None"
    using assms(1,2) by (simp add: month_starts_char date_ge_def)
  from set sorted gaps ne hd normal scen show ?thesis by blast
qed

theorem month_starts_window_witness:
  "valid_date \<lparr>year = 2023, month = 1, day = 15\<rparr> \<and>
   valid_date \<lparr>year = 2023, month = 4, day = 2\<rparr> \<and>
   date_lt \<lparr>year = 2023, month = 1, day = 15\<rparr> \<lparr>year = 2023, month = 4, day = 2\<rparr> \<and>
   set (fst (month_starts \<lparr>year = 2023, month = 1, day = 15\<rparr> \<lparr>year = 2023, month = 4, day = 2\<rparr>)) =
     {m. is_month_start m \<and> date_ge m (first_of_month \<lparr>year = 2023, month = 1, day = 15\<rparr>) \<and>
         date_lt m \<lparr>year = 2023, month = 4, day = 2\<rparr>} \<and>
   sorted_wrt date_lt
     (fst (month_starts \<lparr>year = 2023, month = 1, day = 15\<rparr> \<lparr>year = 2023, month = 4, day = 2\<rparr>)) \<and>
   hd (fst (month_starts \<lparr>year = 2023, month = 1, day = 15\<rparr> \<lparr>year = 2023, month = 4, day = 2\<rparr>)) =
     \<lparr>year = 2023, month = 1, day = 1\<rparr>"
proof -
  have v: "valid_date \<lparr>year = 2023, month = 1, day = 15\<rparr>"
      "valid_date \<lparr>year = 2023, month = 4, day = 2\<rparr>"
    by (simp_all add: valid_date_iff days_in_month_def)
  have l: "date_lt \<lparr>year = 2023, month = 1, day = 15\<rparr> \<lparr>year = 2023, month = 4, day = 2\<rparr>"
    by (simp add: date_lt_def)
  show ?thesis
    using v l month_starts_window [OF v l] by (simp add: first_of_month_def)
qed

lemma month_starts_same_day:
  assumes "valid_date d"
  shows "fst (month_starts d d) = (if day d = 1 then [] else [first_of_month d])"
proof -
  let ?a = "midx (year d) (month d)"
  have ys: "fst (month_starts d d) = map month_of_index [?a ..< hi d]"
    using assms by (simp add: month_starts_char)
  have f: "month_of_index ?a = first_of_month d"
    using assms by (simp add: first_of_month_def month_of_index_midx valid_date_iff)
  have "1 \<le> day d" using assms by (simp add: valid_date_iff)
  then show ?thesis
    unfolding ys using f by (auto simp: hi_def)
qed

text \<open>
  C2. With \<open>start = end = d\<close> the claim expects an empty sequence. At 2023-01-15 the
  loop compares the first of January with \<open>end\<close>, finds it earlier, and yields it; the
  sequence is empty only when \<open>d\<close> is the first day of its month.
\<close>

theorem month_starts_same_day_mid_month:
  "month_starts \<lparr>year = 2023, month = 1, day = 15\<rparr> \<lparr>year = 2023, month = 1, day = 15\<rparr> =
     ([\<lparr>year = 2023, month = 1, day = 1\<rparr>], None)"
  by (simp add: month_starts_def month_loop.simps mk_date_def date_ge_def date_lt_def
      days_in_month_def)

text \<open>
  C10. For any two dates, in either order, \<open>_month_starts\<close> yields finitely many dates
  (at most the 119988 month starts a \<^verbatim>\<open>date\<close> can express; the loop is the total function
  \<open>month_loop\<close>), and when the first day of the month of \<open>start\<close> is on or after
  \<open>end_date\<close> it yields nothing and ends without error. The generator ends with an
  error in one case only: \<open>end_date\<close> is after 9999-12-01, where \<^verbatim>\<open>date(10000, 1, 1)\<close>
  raises \<^verbatim>\<open>ValueError\<close> once every month start up to 9999-12-01 was yielded.
\<close>

theorem month_starts_finite:
  assumes "valid_date start" and "valid_date end_date"
  shows "length (fst (month_starts start end_date)) \<le> 119988 \<and>
         (date_ge (first_of_month start) end_date \<longrightarrow> month_starts start end_date = ([], None)) \<and>
         snd (month_starts start end_date) =
           (if date_lt last_month end_date then Some ValueError else None)"
proof -
  let ?a = "midx (year start) (month start)"
  have char: "month_starts start end_date =
      (map month_of_index [?a ..< hi end_date],
       if date_lt last_month end_date then Some ValueError else None)"
    using assms by (rule month_starts_char)
  have "hi end_date - ?a \<le> 120000 - 12"
    using hi_bound [OF assms(2)] midx_lower [OF assms(1)] by linarith
  then have len: "length (fst (month_starts start end_date)) \<le> 119988"
    by (simp add: char)
  have empty: "month_starts start end_date = ([], None)"
    if ge: "date_ge (first_of_month start) end_date"
  proof -
    have "first_of_month start = month_of_index ?a"
      using assms(1) by (simp add: first_of_month_def month_of_index_midx valid_date_iff)
    with ge have h: "hi end_date \<le> ?a"
      using assms(2) by (simp add: date_ge_def date_lt_month_of_index)
    moreover have "?a \<le> 119999"
      using assms(1) unfolding valid_date_iff midx_def by linarith
    ultimately have "hi end_date \<noteq> 120000" by simp
    then have "\<not> date_lt last_month end_date"
      using assms(2) by (simp add: hi_last)
    with h show ?thesis by (simp add: char)
  qed
  from len empty char show ?thesis by simp
qed

theorem month_starts_finite_witness:
  "valid_date \<lparr>year = 2023, month = 5, day = 20\<rparr> \<and>
   valid_date \<lparr>year = 2023, month = 2, day = 3\<rparr> \<and>
   date_ge (first_of_month \<lparr>year = 2023, month = 5, day = 20\<rparr>) \<lparr>year = 2023, month = 2, day = 3\<rparr> \<and>
   month_starts \<lparr>year = 2023, month = 5, day = 20\<rparr> \<lparr>year = 2023, month = 2, day = 3\<rparr> = ([], None)"
proof -
  have v: "valid_date \<lparr>year = 2023, month = 5, day = 20\<rparr>"
      "valid_date \<lparr>year = 2023, month = 2, day = 3\<rparr>"
    by (simp_all add: valid_date_iff days_in_month_def is_leap_def)
  have g: "date_ge (first_of_month \<lparr>year = 2023, month = 5, day = 20\<rparr>)
      \<lparr>year = 2023, month = 2, day = 3\<rparr>"
    by (simp add: date_ge_def date_lt_def first_of_month_def)
  show ?thesis
    using v g month_starts_finite [OF v] by simp
qed

subsection \<open>Strings\<close>




lemma rename_steps:
  assumes "distinct [k1, k2, k3, k4, k5, k6 :: string]"
  shows "(let m0 = Map.empty;
          m1 = (if k1 \<in> S then m0(k1 \<mapsto> v1) else m0);
          m2 = (if k2 \<in> S then m1(k2 \<mapsto> v2) else m1);
          m3 = (if k3 \<in> S then m2(k3 \<mapsto> v3) else m2);
          m4 = (if k4 \<in> S then m3(k4 \<mapsto> v4) else m3);
          m5 = (if k5 \<in> S then m4(k5 \<mapsto> v5) else m4);
          m6 = (if k6 \<in> S then m5(k6 \<mapsto> v6) else m5)
      in m6) l =
     (if l \<in> S then
        (if l = k1 then Some v1 else if l = k2 then Some v2 else if l = k3 then Some v3
         else if l = k4 then Some v4 else if l = k5 then Some v5 else if l = k6 then Some (v6::string)
         else None)
      else None)"
  using assms by (auto simp: Let_def)

lemma raw_keys_distinct:
  "distinct [''tpep_pickup_datetime'', ''lpep_pickup_datetime'', ''tpep_dropoff_datetime'',
             ''lpep_dropoff_datetime'', ''pulocationid'', ''dolocationid'']"
  by simp

lemma build_rename_map_lookup:
  "build_rename_map cs l =
     (if l \<in> set cs then
        (if l = ''tpep_pickup_datetime'' then Some ''pickup_datetime''
         else if l = ''lpep_pickup_datetime'' then Some ''pickup_datetime''
         else if l = ''tpep_dropoff_datetime'' then Some ''dropoff_datetime''
         else if l = ''lpep_dropoff_datetime'' then Some ''dropoff_datetime''
         else if l = ''pulocationid'' then Some ''pickup_location_id''
         else if l = ''dolocationid'' then Some ''dropoff_location_id''
         else None)
      else None)"
  unfolding build_rename_map_def by (rule rename_steps [OF raw_keys_distinct])

lemma renamed_label:
  assumes "c \<in> set cs"
  shows "(case build_rename_map (map lower cs) (lower c) of None \<Rightarrow> lower c | Some c' \<Rightarrow> c') =
         norm_name c"
proof -
  have "lower c \<in> set (map lower cs)" using assms by simp
  then show ?thesis
    unfolding build_rename_map_lookup norm_name_def Let_def by simp
qed

lemma columns_lowered:
  "columns (rename (lower_map (columns df)) df) = map lower (columns df)"
  by (simp add: rename_def lower_map_def)

lemma columns_renamed:
  "columns (rename (build_rename_map (columns (rename (lower_map (columns df)) df)))
              (rename (lower_map (columns df)) df)) = map norm_name (columns df)"
proof -
  have "columns (rename (build_rename_map (map lower (columns df)))
              (rename (lower_map (columns df)) df)) =
        map (\<lambda>c. case build_rename_map (map lower (columns df)) (lower c) of
                    None \<Rightarrow> lower c | Some c' \<Rightarrow> c') (columns df)"
    by (simp add: rename_def columns_lowered [unfolded rename_def] comp_def)
  also have "\<dots> = map norm_name (columns df)"
    by (rule map_cong) (simp_all add: renamed_label)
  finally show ?thesis by (simp only: columns_lowered)
qed

lemma norm_name_cases:
  "norm_name c = ''pickup_datetime'' \<and> (lower c = ''tpep_pickup_datetime'' \<or> lower c = ''lpep_pickup_datetime'') \<or>
   norm_name c = ''dropoff_datetime'' \<and> (lower c = ''tpep_dropoff_datetime'' \<or> lower c = ''lpep_dropoff_datetime'') \<or>
   norm_name c = ''pickup_location_id'' \<and> lower c = ''pulocationid'' \<or>
   norm_name c = ''dropoff_location_id'' \<and> lower c = ''dolocationid'' \<or>
   norm_name c = lower c \<and> lower c \<notin> {''tpep_pickup_datetime'', ''lpep_pickup_datetime'',
      ''tpep_dropoff_datetime'', ''lpep_dropoff_datetime'', ''pulocationid'', ''dolocationid''}"
  unfolding norm_name_def Let_def by simp






lemma norm_name_taxi: "norm_name c = ''taxi_type'' \<longleftrightarrow> lower c = ''taxi_type''"
  using norm_name_cases [of c] by auto


subsection \<open>Positions of a label\<close>

lemma set_positions: "set (positions c cs) = {i. i < length cs \<and> cs ! i = c}"
  by (auto simp: positions_def)

lemma positions_Nil_iff: "positions c cs = [] \<longleftrightarrow> c \<notin> set cs"
  by (auto simp: positions_def filter_empty_conv in_set_conv_nth)

lemma length_positions: "length (positions c cs) = count_list cs c"
proof -
  have "filter (\<lambda>x. x = c) cs = filter (\<lambda>x. x = c) (map ((!) cs) [0..<length cs])"
    by (simp add: map_nth)
  also have "\<dots> = map ((!) cs) (positions c cs)"
    by (simp add: filter_map positions_def comp_def)
  finally have "length (filter (\<lambda>x. x = c) cs) = length (positions c cs)"
    by simp
  moreover have "count_list cs c = length (filter (\<lambda>x. x = c) cs)"
    by (induction cs) auto
  ultimately show ?thesis by simp
qed

lemma positions_single: "positions c cs = [i] \<Longrightarrow> i < length cs \<and> cs ! i = c"
  using set_positions [of c cs] by auto



lemma positions_append_other:
  "c \<noteq> d \<Longrightarrow> positions c (cs @ [d]) = positions c cs"
  by (auto simp: positions_def nth_append intro: filter_cong)

subsection \<open>Assignments to columns\<close>

lemma columns_set_series [simp]: "columns (set_series i s df) = columns df"
  by (simp add: set_series_def)

lemma length_rows_set_series [simp]: "length (rows (set_series i s df)) = length (rows df)"
  by (simp add: set_series_def)

lemma wf_set_series: "wf_frame df \<Longrightarrow> wf_frame (set_series i s df)"
  by (auto simp: wf_frame_def set_series_def list_all_iff in_set_enumerate_eq)

lemma column_set_series_other:
  assumes "j \<noteq> i"
  shows "column j (set_series i s df) = column j df"
proof -
  have "map (\<lambda>r. r ! j) (map (\<lambda>(k, r). r[i := cell_at s k]) kr) =
        map (\<lambda>r. r ! j) (map snd kr)" for kr :: "(nat \<times> 'a cell list) list"
    using assms by (induction kr) auto
  then show ?thesis
    by (simp add: column_def set_series_def del: map_map)
qed

lemma column_set_series_same:
  assumes "wf_frame df" and "i < length (columns df)" and "\<And>k. P (cell_at s k)"
  shows "list_all P (column i (set_series i s df))"
proof -
  have "P (r[i := cell_at s k] ! i)"
    if "(k, r) \<in> set (enumerate 0 (rows df))" for k r
  proof -
    from that have "r \<in> set (rows df)" by (auto simp: in_set_enumerate_eq)
    with assms(1,2) have "i < length r" by (simp add: wf_frame_def list_all_iff)
    then show ?thesis using assms(3) by simp
  qed
  then show ?thesis
    by (auto simp: column_def set_series_def list_all_iff)
qed

lemma fold_update_length [simp]:
  "length (fold (\<lambda>i r'. r'[i := v]) ps r) = length r"
  by (induction ps arbitrary: r) auto

lemma fold_update_nth:
  "fold (\<lambda>i r'. r'[i := v]) ps r ! j = (if j \<in> set ps \<and> j < length r then v else r ! j)"
proof (induction ps arbitrary: r)
  case Nil
  then show ?case by simp
next
  case (Cons p ps)
  show ?case
    by (cases "p = j") (auto simp: Cons.IH list_update_beyond)
qed

lemma columns_set_scalar:
  "columns (set_scalar c v df) = (if c \<in> set (columns df) then columns df else columns df @ [c])"
  by (simp add: set_scalar_def)

lemma length_rows_set_scalar [simp]: "length (rows (set_scalar c v df)) = length (rows df)"
  by (simp add: set_scalar_def)


lemma column_set_scalar_other:
  assumes "wf_frame df" and "j < length (columns df)" and "columns df ! j \<noteq> c"
  shows "column j (set_scalar c v df) = column j df"
proof (cases "c \<in> set (columns df)")
  case True
  have "j \<notin> set (positions c (columns df))"
    using assms(3) by (simp add: set_positions)
  with True show ?thesis
    by (simp add: column_def set_scalar_def fold_update_nth)
next
  case False
  have "(r @ [v]) ! j = r ! j" if "r \<in> set (rows df)" for r
  proof -
    from that assms(1,2) have "j < length r" by (simp add: wf_frame_def list_all_iff)
    then show ?thesis by (simp add: nth_append)
  qed
  with False show ?thesis
    by (simp add: column_def set_scalar_def)
qed



subsection \<open>The normalizer, step by step\<close>

lemma rows_rename [simp]: "rows (rename m df) = rows df"
  by (simp add: rename_def)

lemma wf_renamed: "wf_frame (renamed df) = wf_frame df"
  by (simp add: wf_frame_def columns_renamed)

lemma count_list_pos_iff: "0 < count_list xs x \<longleftrightarrow> x \<in> set xs"
  by (induction xs) auto


lemma coerce_datetime_single:
  "positions c (columns df) = [i] \<Longrightarrow>
   coerce_datetime td c df =
     (case td (column i df) of Inl e \<Rightarrow> Inl e | Inr s \<Rightarrow> Inr (set_series i s df))"
  using positions_Nil_iff [of c "columns df"] by (auto simp: coerce_datetime_def)

lemma coerce_datetime_duplicate:
  assumes "1 < count_list (columns df) c"
  shows "coerce_datetime td c df = Inl ValueError"
proof -
  have "1 < length (positions c (columns df))"
    using assms by (simp add: length_positions)
  then obtain i j ps where "positions c (columns df) = i # j # ps"
    by (cases "positions c (columns df)"; cases "tl (positions c (columns df))") auto
  moreover have "c \<in> set (columns df)"
    using assms count_list_pos_iff [of "columns df" c] by simp
  ultimately show ?thesis by (simp add: coerce_datetime_def)
qed

lemma coerce_datetime_cases:
  assumes "coerce_datetime td c df = Inr out"
  obtains (absent) "c \<notin> set (columns df)" "out = df"
  | (single) i s where "positions c (columns df) = [i]" "td (column i df) = Inr s"
      "out = set_series i s df"
proof (cases "c \<in> set (columns df)")
  case False
  with assms have "out = df" by (simp add: coerce_datetime_def)
  with False show ?thesis by (rule absent)
next
  case True
  with assms obtain i where i: "positions c (columns df) = [i]"
    by (auto simp: coerce_datetime_def split: list.splits)
  with assms obtain s where s: "td (column i df) = Inr s"
    by (cases "td (column i df)") (simp_all add: coerce_datetime_single)
  with assms i have "out = set_series i s df"
    by (simp add: coerce_datetime_single)
  with i s show ?thesis by (rule single)
qed

lemma coerce_datetime_columns:
  "coerce_datetime td c df = Inr out \<Longrightarrow> columns out = columns df"
  by (erule coerce_datetime_cases) simp_all

lemma coerce_datetime_length:
  "coerce_datetime td c df = Inr out \<Longrightarrow> length (rows out) = length (rows df)"
  by (erule coerce_datetime_cases) simp_all

lemma coerce_datetime_wf:
  "coerce_datetime td c df = Inr out \<Longrightarrow> wf_frame df \<Longrightarrow> wf_frame out"
  by (erule coerce_datetime_cases) (simp_all add: wf_set_series)

lemma coerce_datetime_other:
  assumes "coerce_datetime td c df = Inr out" and "columns df ! j \<noteq> c"
  shows "column j out = column j df"
  using assms(1)
proof (cases rule: coerce_datetime_cases)
  case absent
  then show ?thesis by simp
next
  case (single i s)
  from single(1) have "columns df ! i = c" by (simp add: positions_single)
  with assms(2) have "j \<noteq> i" by auto
  with single(3) show ?thesis by (simp add: column_set_series_other)
qed

lemma cell_at_naive: "ts_or_null (cell_at (Naive ps) k)"
  by (simp split: option.splits)

lemma cell_at_aware: "tz_aware (cell_at (Aware ts) k)"
  by (simp split: option.splits)

lemma coerce_datetime_stamped:
  assumes "coerce_datetime td c df = Inr out" and "wf_frame df"
    and "positions c (columns df) = [i]"
  shows "list_all ts_or_null (column i out) \<or> list_all tz_aware (column i out)"
proof -
  from assms(3) have i: "i < length (columns df)" by (simp add: positions_single)
  from assms(1,3) obtain s where s: "out = set_series i s df"
    by (cases "td (column i df)") (auto simp: coerce_datetime_single)
  show ?thesis
  proof (cases s)
    case (Naive ps)
    have "list_all ts_or_null (column i (set_series i (Naive ps) df))"
      using assms(2) i by (rule column_set_series_same) (rule cell_at_naive)
    then show ?thesis by (simp add: s Naive)
  next
    case (Aware ts)
    have "list_all tz_aware (column i (set_series i (Aware ts) df))"
      using assms(2) i by (rule column_set_series_same) (rule cell_at_aware)
    then show ?thesis by (simp add: s Aware)
  qed
qed


lemma standardize_schema_empty: "df_empty df \<Longrightarrow> standardize_schema td df ty = Inr df"
  by (simp add: standardize_schema_def)

lemma standardize_schema_steps:
  assumes "standardize_schema td df ty = Inr out" and "\<not> df_empty df"
  obtains df3 df4 where
    "coerce_datetime td ''pickup_datetime'' (renamed df) = Inr df3"
    "coerce_datetime td ''dropoff_datetime'' df3 = Inr df4"
    "out = set_scalar ''taxi_type'' (Text ty) df4"
  using assms
  by (auto simp: standardize_schema_def Let_def split: sum.splits)

lemma standardize_schema_columns:
  assumes "standardize_schema td df ty = Inr out" and "\<not> df_empty df"
  shows "columns out =
     (if ''taxi_type'' \<in> set (map norm_name (columns df)) then map norm_name (columns df)
      else map norm_name (columns df) @ [''taxi_type''])"
proof -
  from assms obtain df3 df4 where s:
    "coerce_datetime td ''pickup_datetime'' (renamed df) = Inr df3"
    "coerce_datetime td ''dropoff_datetime'' df3 = Inr df4"
    "out = set_scalar ''taxi_type'' (Text ty) df4"
    by (rule standardize_schema_steps)
  have "columns df4 = map norm_name (columns df)"
    using coerce_datetime_columns [OF s(1)] coerce_datetime_columns [OF s(2)]
    by (simp only: columns_renamed)
  with s(3) show ?thesis by (simp only: columns_set_scalar)
qed

lemma standardize_schema_length:
  assumes "standardize_schema td df ty = Inr out"
  shows "length (rows out) = length (rows df)"
proof (cases "df_empty df")
  case True
  with assms show ?thesis by (simp add: standardize_schema_empty)
next
  case False
  with assms(1) obtain df3 df4 where s:
    "coerce_datetime td ''pickup_datetime'' (renamed df) = Inr df3"
    "coerce_datetime td ''dropoff_datetime'' df3 = Inr df4"
    "out = set_scalar ''taxi_type'' (Text ty) df4"
    by (rule standardize_schema_steps)
  show ?thesis
    using coerce_datetime_length [OF s(1)] coerce_datetime_length [OF s(2)] s(3) by simp
qed



lemma standardize_schema_duplicate_pickup:
  assumes "\<not> df_empty df" and "1 < count_list (map norm_name (columns df)) ''pickup_datetime''"
  shows "standardize_schema td df ty = Inl ValueError"
proof -
  have "1 < count_list (columns (renamed df)) ''pickup_datetime''"
    using assms(2) by (simp only: columns_renamed)
  then have "coerce_datetime td ''pickup_datetime'' (renamed df) = Inl ValueError"
    by (rule coerce_datetime_duplicate)
  with assms(1) show ?thesis by (simp add: standardize_schema_def Let_def)
qed












subsection \<open>The window filter\<close>

lemma df_empty_rows: "\<not> df_empty df \<Longrightarrow> rows df \<noteq> []"
  by (simp add: df_empty_def)

lemma in_window_within: "ts_or_null c \<Longrightarrow> in_window s e c = Inr (within s e c)"
  by (cases c) (simp_all add: ts_lt_def date_ge_def)

lemma window_mask_within:
  "list_all ts_or_null cs \<Longrightarrow> window_mask s e cs = Inr (map (within s e) cs)"
  by (induction cs) (simp_all add: in_window_within)

lemma columns_loc [simp]: "columns (loc msk df) = columns df"
  by (simp add: loc_def)

lemma zip_mask_filter:
  "map snd (filter fst (zip (map (\<lambda>r. P (r ! i)) rs) rs)) = filter (\<lambda>r. P (r ! i)) rs"
  by (induction rs) simp_all

lemma loc_column_mask:
  "loc (map P (column i df)) df = df\<lparr>rows := filter (\<lambda>r. P (r ! i)) (rows df)\<rparr>"
  by (simp add: loc_def column_def zip_mask_filter comp_def)

lemma window_filter_absent:
  "''pickup_datetime'' \<notin> set (columns df) \<Longrightarrow> window_filter df s e = Inr df"
  by (simp add: window_filter_def)

lemma window_filter_normalized:
  assumes "positions ''pickup_datetime'' (columns df) = [i]"
    and "list_all ts_or_null (column i df)"
  shows "window_filter df s e = Inr (df\<lparr>rows := filter (\<lambda>r. within s e (r ! i)) (rows df)\<rparr>)"
proof -
  have "''pickup_datetime'' \<in> set (columns df)"
    using assms(1) positions_Nil_iff [of "''pickup_datetime''" "columns df"] by simp
  then show ?thesis
    by (simp add: window_filter_def assms(1) window_mask_within [OF assms(2)] loc_column_mask)
qed

lemma within_not_null: "within s e c \<Longrightarrow> c \<noteq> Null"
  by (cases c) simp_all

lemma in_window_refused: "\<not> ts_or_null c \<Longrightarrow> in_window s e c = Inl TypeError"
  by (cases c) simp_all

lemma in_window_error: "in_window s e c = Inl err \<Longrightarrow> err = TypeError"
  by (cases c) simp_all

lemma window_mask_refused:
  "\<exists>c \<in> set cs. \<not> ts_or_null c \<Longrightarrow> window_mask s e cs = Inl TypeError"
proof (induction cs)
  case Nil
  then show ?case by simp
next
  case (Cons c cs)
  show ?case
  proof (cases "ts_or_null c")
    case True
    with Cons.prems have "\<exists>c \<in> set cs. \<not> ts_or_null c" by auto
    then have "window_mask s e cs = Inl TypeError" by (rule Cons.IH)
    with True show ?thesis by (simp add: in_window_within)
  next
    case False
    then show ?thesis by (simp add: in_window_refused)
  qed
qed

lemma tz_aware_not_naive: "tz_aware c \<Longrightarrow> \<not> ts_or_null c"
  by (cases c) simp_all

lemma window_filter_refused:
  assumes "positions ''pickup_datetime'' (columns df) = [i]"
    and "\<exists>c \<in> set (column i df). \<not> ts_or_null c"
  shows "window_filter df s e = Inl TypeError"
proof -
  have "''pickup_datetime'' \<in> set (columns df)"
    using assms(1) positions_Nil_iff [of "''pickup_datetime''" "columns df"] by simp
  then show ?thesis
    by (simp add: window_filter_def assms(1) window_mask_refused [OF assms(2)])
qed




lemma standardize_schema_pickup_cells:
  assumes "standardize_schema td df ty = Inr out" and "wf_frame df" and "\<not> df_empty df"
    and "''pickup_datetime'' \<in> set (columns out)"
  shows "\<exists>i. positions ''pickup_datetime'' (columns out) = [i] \<and>
             (list_all ts_or_null (column i out) \<or> list_all tz_aware (column i out))"
proof -
  from assms(1,3) obtain df3 df4 where s:
    "coerce_datetime td ''pickup_datetime'' (renamed df) = Inr df3"
    "coerce_datetime td ''dropoff_datetime'' df3 = Inr df4"
    "out = set_scalar ''taxi_type'' (Text ty) df4"
    by (rule standardize_schema_steps)
  let ?cs = "map norm_name (columns df)"
  have c2: "columns (renamed df) = ?cs" by (rule columns_renamed)
  have c3: "columns df3 = ?cs"
    using coerce_datetime_columns [OF s(1)] by (simp only: c2)
  have c4: "columns df4 = ?cs"
    using coerce_datetime_columns [OF s(2)] by (simp only: c3)
  have w2: "wf_frame (renamed df)" using assms(2) by (simp only: wf_renamed)
  have w3: "wf_frame df3" using coerce_datetime_wf [OF s(1) w2] .
  have w4: "wf_frame df4" using coerce_datetime_wf [OF s(2) w3] .
  have cout: "columns out = (if ''taxi_type'' \<in> set ?cs then ?cs else ?cs @ [''taxi_type''])"
    using assms(1,3) by (rule standardize_schema_columns)
  have pos_out: "positions ''pickup_datetime'' (columns out) = positions ''pickup_datetime'' ?cs"
    unfolding cout by (simp add: positions_append_other)
  have "''pickup_datetime'' \<in> set ?cs"
    using assms(4) unfolding cout by (simp split: if_splits)
  then have "''pickup_datetime'' \<in> set (columns (renamed df))" by (simp only: c2)
  with s(1) obtain i where i: "positions ''pickup_datetime'' (columns (renamed df)) = [i]"
    by (auto elim: coerce_datetime_cases)
  then have i': "positions ''pickup_datetime'' ?cs = [i]" by (simp only: c2)
  then have il: "i < length ?cs" and ic: "?cs ! i = ''pickup_datetime''"
    using positions_single [of "''pickup_datetime''" ?cs i] by simp_all
  have "list_all ts_or_null (column i df3) \<or> list_all tz_aware (column i df3)"
    using s(1) w2 i by (rule coerce_datetime_stamped)
  moreover have "column i df4 = column i df3"
    by (rule coerce_datetime_other [OF s(2)]) (simp add: c3 ic)
  moreover have "column i out = column i df4"
    unfolding s(3) by (rule column_set_scalar_other [OF w4]) (use il ic in \<open>simp_all add: c4\<close>)
  ultimately have "list_all ts_or_null (column i out) \<or> list_all tz_aware (column i out)"
    by simp
  with pos_out i' show ?thesis by simp
qed

subsection \<open>What the loop accumulates\<close>

lemma load_clock [simp]:
  "clock_reads (snd (load_parquet_from_url ext url s)) = clock_reads s"
  by (simp add: load_parquet_from_url_def Let_def print_def split: sum.splits)


lemma month_body_cases:
  assumes "month_body ext sd ed ty m frames s = (Inr frames', s')"
  obtains (skip) "frames' = frames" "clock_reads s' = clock_reads s"
  | (append) df df1 df2 s2 where
      "load_parquet_from_url ext (month_url ty m) (print (''Fetching '' @ month_url ty m) s) = (Inr df, s2)"
      "\<not> df_empty df"
      "standardize_schema (to_datetime ext) df ty = Inr df1"
      "window_filter df1 sd ed = Inr df2"
      "\<not> df_empty df2"
      "frames' = frames @ [set_scalar ''extracted_at'' (UtcStamp (utcnow ext (clock_reads s))) df2]"
      "clock_reads s' = Suc (clock_reads s)"
proof -
  let ?s1 = "print (''Fetching '' @ month_url ty m) s"
  obtain r s2 where l: "load_parquet_from_url ext (month_url ty m) ?s1 = (r, s2)"
    by (cases "load_parquet_from_url ext (month_url ty m) ?s1")
  have "clock_reads s2 = clock_reads ?s1"
    using load_clock [of ext "month_url ty m" ?s1] unfolding l by simp
  then have c2: "clock_reads s2 = clock_reads s"
    by (simp add: print_def)
  from assms l obtain df where r: "r = Inr df"
    by (cases r) (simp_all add: month_body_def Let_def)
  show thesis
  proof (cases "df_empty df")
    case True
    with assms l r c2 have "frames' = frames" "clock_reads s' = clock_reads s"
      by (auto simp: month_body_def Let_def)
    then show ?thesis by (rule skip)
  next
    case ne: False
    with assms l r obtain df1 where d1: "standardize_schema (to_datetime ext) df ty = Inr df1"
      by (cases "standardize_schema (to_datetime ext) df ty") (simp_all add: month_body_def Let_def)
    with assms l r ne obtain df2 where d2: "window_filter df1 sd ed = Inr df2"
      by (cases "window_filter df1 sd ed") (simp_all add: month_body_def Let_def)
    show ?thesis
    proof (cases "df_empty df2")
      case True
      with assms l r ne d1 d2 c2 have "frames' = frames" "clock_reads s' = clock_reads s"
        by (auto simp: month_body_def Let_def)
      then show ?thesis by (rule skip)
    next
      case False
      with assms l r ne d1 d2 c2 have
        "frames' = frames @ [set_scalar ''extracted_at'' (UtcStamp (utcnow ext (clock_reads s))) df2]"
        "clock_reads s' = Suc (clock_reads s)"
        by (auto simp: month_body_def Let_def)
      with l r ne d1 d2 False show ?thesis by (intro append) simp_all
    qed
  qed
qed

lemma demo_normalized:
  "standardize_schema demo_to_datetime demo_january ''yellow'' = Inr demo_january_normalized"
  by code_simp

lemma demo_wf: "wf_frame demo_january"
  by (simp add: wf_frame_def demo_january_def)

lemma demo_not_empty: "\<not> df_empty demo_january"
  by (simp add: df_empty_def demo_january_def)

lemma demo_utc_normalizes:
  "standardize_schema demo_to_datetime demo_utc_raw ''green'' = Inr demo_utc_normalized"
  by code_simp

lemma demo_utc_refused:
  "window_filter demo_utc_normalized \<lparr>year = 2023, month = 1, day = 1\<rparr>
     \<lparr>year = 2023, month = 3, day = 1\<rparr> = Inl TypeError"
  by code_simp

text \<open>
  C3, as the code has it. On a table that the normalizer produced from a raw table
  that is not empty, the window filter returns the table as it is when there is no
  \<open>pickup_datetime\<close> column. Otherwise that column stands at one position \<open>i\<close> and is
  either timezone-naive or timezone-aware. When it is timezone-naive, the result
  keeps, in order, exactly the rows whose cell at \<open>i\<close> is a timestamp on a day \<open>d\<close>
  with \<open>start_date \<le> d < end_date\<close>, and no row kept has a null there. When it is
  timezone-aware, the comparison with the naive bounds raises \<^verbatim>\<open>TypeError\<close> and there
  is no filtered table.
\<close>

theorem window_filter_spec:
  assumes "standardize_schema td raw ty = Inr df" and "wf_frame raw" and "\<not> df_empty raw"
  shows "(''pickup_datetime'' \<notin> set (columns df) \<longrightarrow> window_filter df start_date end_date = Inr df) \<and>
         (''pickup_datetime'' \<in> set (columns df) \<longrightarrow>
            (\<exists>i. positions ''pickup_datetime'' (columns df) = [i] \<and>
                 (list_all ts_or_null (column i df) \<or> list_all tz_aware (column i df)) \<and>
                 (list_all ts_or_null (column i df) \<longrightarrow>
                    window_filter df start_date end_date =
                      Inr (df\<lparr>rows := filter (\<lambda>r. within start_date end_date (r ! i)) (rows df)\<rparr>) \<and>
                    (\<forall>r \<in> set (filter (\<lambda>r. within start_date end_date (r ! i)) (rows df)).
                       r ! i \<noteq> Null)) \<and>
                 (list_all tz_aware (column i df) \<longrightarrow>
                    window_filter df start_date end_date = Inl TypeError)))"
proof (intro conjI impI)
  assume "''pickup_datetime'' \<notin> set (columns df)"
  then show "window_filter df start_date end_date = Inr df"
    by (rule window_filter_absent)
next
  assume "''pickup_datetime'' \<in> set (columns df)"
  with assms obtain i where i: "positions ''pickup_datetime'' (columns df) = [i]"
      and kind: "list_all ts_or_null (column i df) \<or> list_all tz_aware (column i df)"
    using standardize_schema_pickup_cells by blast
  have naive: "window_filter df start_date end_date =
        Inr (df\<lparr>rows := filter (\<lambda>r. within start_date end_date (r ! i)) (rows df)\<rparr>) \<and>
      (\<forall>r \<in> set (filter (\<lambda>r. within start_date end_date (r ! i)) (rows df)). r ! i \<noteq> Null)"
    if n: "list_all ts_or_null (column i df)"
  proof
    show "window_filter df start_date end_date =
        Inr (df\<lparr>rows := filter (\<lambda>r. within start_date end_date (r ! i)) (rows df)\<rparr>)"
      using i n by (rule window_filter_normalized)
    show "\<forall>r \<in> set (filter (\<lambda>r. within start_date end_date (r ! i)) (rows df)). r ! i \<noteq> Null"
      by (auto dest: within_not_null)
  qed
  have aware: "window_filter df start_date end_date = Inl TypeError"
    if a: "list_all tz_aware (column i df)"
  proof -
    have "length (rows df) = length (rows raw)"
      using assms(1) by (rule standardize_schema_length)
    moreover have "rows raw \<noteq> []" using assms(3) by (rule df_empty_rows)
    ultimately have "column i df \<noteq> []" by (auto simp: column_def)
    then obtain c where c: "c \<in> set (column i df)" by (cases "column i df") auto
    with a have "tz_aware c" by (simp add: list_all_iff)
    then have "\<not> ts_or_null c" by (rule tz_aware_not_naive)
    with c have "\<exists>c \<in> set (column i df). \<not> ts_or_null c" by blast
    with i show ?thesis by (rule window_filter_refused)
  qed
  show "\<exists>i. positions ''pickup_datetime'' (columns df) = [i] \<and>
      (list_all ts_or_null (column i df) \<or> list_all tz_aware (column i df)) \<and>
      (list_all ts_or_null (column i df) \<longrightarrow>
         window_filter df start_date end_date =
           Inr (df\<lparr>rows := filter (\<lambda>r. within start_date end_date (r ! i)) (rows df)\<rparr>) \<and>
         (\<forall>r \<in> set (filter (\<lambda>r. within start_date end_date (r ! i)) (rows df)). r ! i \<noteq> Null)) \<and>
      (list_all tz_aware (column i df) \<longrightarrow> window_filter df start_date end_date = Inl TypeError)"
  proof (rule exI [of _ i], intro conjI)
    show "positions ''pickup_datetime'' (columns df) = [i]" by (rule i)
    show "list_all ts_or_null (column i df) \<or> list_all tz_aware (column i df)" by (rule kind)
    show "list_all ts_or_null (column i df) \<longrightarrow>
         window_filter df start_date end_date =
           Inr (df\<lparr>rows := filter (\<lambda>r. within start_date end_date (r ! i)) (rows df)\<rparr>) \<and>
         (\<forall>r \<in> set (filter (\<lambda>r. within start_date end_date (r ! i)) (rows df)). r ! i \<noteq> Null)"
      by (rule impI) (rule naive)
    show "list_all tz_aware (column i df) \<longrightarrow> window_filter df start_date end_date = Inl TypeError"
      by (rule impI) (rule aware)
  qed
qed

theorem window_filter_spec_witness:
  "standardize_schema demo_to_datetime demo_january ''yellow'' = Inr demo_january_normalized \<and>
   wf_frame demo_january \<and> \<not> df_empty demo_january \<and>
   ''pickup_datetime'' \<in> set (columns demo_january_normalized) \<and>
   list_all ts_or_null (column 0 demo_january_normalized) \<and>
   window_filter demo_january_normalized \<lparr>year = 2023, month = 1, day = 1\<rparr>
       \<lparr>year = 2023, month = 3, day = 1\<rparr> =
     Inr (demo_january_normalized\<lparr>rows :=
            filter (\<lambda>r. within \<lparr>year = 2023, month = 1, day = 1\<rparr>
                           \<lparr>year = 2023, month = 3, day = 1\<rparr> (r ! 0))
              (rows demo_january_normalized)\<rparr>) \<and>
   window_filter demo_january_normalized \<lparr>year = 2023, month = 1, day = 1\<rparr>
       \<lparr>year = 2023, month = 3, day = 1\<rparr> =
     Inr \<lparr>columns = [''pickup_datetime'', ''pickup_location_id'', ''fare_amount'', ''taxi_type''],
          rows = [[Timestamp \<lparr>year = 2023, month = 1, day = 5\<rparr> 7, Raw 141, Raw 12,
                   Text ''yellow'']]\<rparr>"
proof -
  have p: "''pickup_datetime'' \<in> set (columns demo_january_normalized)"
    by (simp add: demo_january_normalized_def)
  note inst = window_filter_spec [OF demo_normalized demo_wf demo_not_empty,
      of "\<lparr>year = 2023, month = 1, day = 1\<rparr>" "\<lparr>year = 2023, month = 3, day = 1\<rparr>"]
  note ex = inst [THEN conjunct2, THEN mp, OF p]
  from ex obtain i where all:
    "positions ''pickup_datetime'' (columns demo_january_normalized) = [i] \<and>
     (list_all ts_or_null (column i demo_january_normalized) \<or>
      list_all tz_aware (column i demo_january_normalized)) \<and>
     (list_all ts_or_null (column i demo_january_normalized) \<longrightarrow>
        window_filter demo_january_normalized \<lparr>year = 2023, month = 1, day = 1\<rparr>
            \<lparr>year = 2023, month = 3, day = 1\<rparr> =
          Inr (demo_january_normalized\<lparr>rows :=
                 filter (\<lambda>r. within \<lparr>year = 2023, month = 1, day = 1\<rparr>
                                \<lparr>year = 2023, month = 3, day = 1\<rparr> (r ! i))
                   (rows demo_january_normalized)\<rparr>) \<and>
        (\<forall>r \<in> set (filter (\<lambda>r. within \<lparr>year = 2023, month = 1, day = 1\<rparr>
                                \<lparr>year = 2023, month = 3, day = 1\<rparr> (r ! i))
                   (rows demo_january_normalized)).
           r ! i \<noteq> Null)) \<and>
     (list_all tz_aware (column i demo_january_normalized) \<longrightarrow>
        window_filter demo_january_normalized \<lparr>year = 2023, month = 1, day = 1\<rparr>
            \<lparr>year = 2023, month = 3, day = 1\<rparr> = Inl TypeError)"
    by (rule exE)
  have p0: "positions ''pickup_datetime'' (columns demo_january_normalized) = [0]"
    by code_simp
  from all [THEN conjunct1] p0 have i0: "i = 0" by simp
  have ts: "list_all ts_or_null (column 0 demo_january_normalized)"
    by code_simp
  note res = all [unfolded i0, THEN conjunct2, THEN conjunct2, THEN conjunct1, THEN mp, OF ts,
      THEN conjunct1]
  have v: "window_filter demo_january_normalized \<lparr>year = 2023, month = 1, day = 1\<rparr>
       \<lparr>year = 2023, month = 3, day = 1\<rparr> =
     Inr \<lparr>columns = [''pickup_datetime'', ''pickup_location_id'', ''fare_amount'', ''taxi_type''],
          rows = [[Timestamp \<lparr>year = 2023, month = 1, day = 5\<rparr> 7, Raw 141, Raw 12,
                   Text ''yellow'']]\<rparr>"
    by code_simp
  show ?thesis
    using demo_normalized demo_wf demo_not_empty p ts res v by - (intro conjI, assumption+)
qed

text \<open>
  The claim as stated fails on a file whose pickup column is timezone-aware: the
  normalizer keeps it timezone-aware, and the filter raises instead of returning the
  rows inside the window.
\<close>

theorem window_filter_tz_aware:
  "standardize_schema demo_to_datetime demo_utc_raw ''green'' = Inr demo_utc_normalized \<and>
   window_filter demo_utc_normalized \<lparr>year = 2023, month = 1, day = 1\<rparr>
     \<lparr>year = 2023, month = 3, day = 1\<rparr> = Inl TypeError"
  using demo_utc_normalizes demo_utc_refused by (rule conjI)




text \<open>
  With a single pickup column the normalizer still raises when the conversion does:
  here the column mixes a naive timestamp with a timezone-aware one.
\<close>

lemma standardize_schema_conversion_refused:
  "standardize_schema demo_to_datetime
     \<lparr>columns = [''tpep_pickup_datetime''],
      rows = [[Timestamp \<lparr>year = 2023, month = 1, day = 5\<rparr> 0], [UtcStamp 1673000000]]\<rparr>
     ''yellow'' =
   Inl ValueError"
  by code_simp




subsection \<open>The fetcher and the aggregator\<close>

lemma load_non_ok:
  assumes "requests_get ext (requests_made s) url = Inr resp" and "status_code resp \<noteq> 200"
  shows "load_parquet_from_url ext url s =
           (Inr \<lparr>columns = [], rows = []\<rparr>,
            s\<lparr>requests_made := Suc (requests_made s),
              stdout := stdout s @
                [''Skipping URL '' @ url @ '' (status='' @ str_int (status_code resp) @ '')'']\<rparr>)"
  using assms by (simp add: load_parquet_from_url_def print_def new_frame_def)

text \<open>
  C5. When the response to the request for \<open>url\<close> has a status other than 200, the
  fetcher returns the empty table without raising and prints one line naming the URL
  and the status; in the aggregator, the loop body for that month then leaves the
  accumulated frames as they were and goes on without error, having printed the
  \<open>Fetching\<close> line and the \<open>Skipping\<close> line.
\<close>

theorem non_ok_month_is_skipped:
  assumes "requests_get ext (requests_made s) url = Inr resp" and "status_code resp \<noteq> 200"
  shows "load_parquet_from_url ext url s =
           (Inr \<lparr>columns = [], rows = []\<rparr>,
            s\<lparr>requests_made := Suc (requests_made s),
              stdout := stdout s @
                [''Skipping URL '' @ url @ '' (status='' @ str_int (status_code resp) @ '')'']\<rparr>) \<and>
         (url = month_url taxi_type month_start \<longrightarrow>
            month_body ext start_date end_date taxi_type month_start frames s =
              (Inr frames,
               s\<lparr>requests_made := Suc (requests_made s),
                 stdout := stdout s @
                   [''Fetching '' @ url,
                    ''Skipping URL '' @ url @ '' (status='' @ str_int (status_code resp) @ '')'']\<rparr>))"
proof -
  have a: "load_parquet_from_url ext url s =
           (Inr \<lparr>columns = [], rows = []\<rparr>,
            s\<lparr>requests_made := Suc (requests_made s),
              stdout := stdout s @
                [''Skipping URL '' @ url @ '' (status='' @ str_int (status_code resp) @ '')'']\<rparr>)"
    using assms by (rule load_non_ok)
  have b: "month_body ext start_date end_date taxi_type month_start frames s =
              (Inr frames,
               s\<lparr>requests_made := Suc (requests_made s),
                 stdout := stdout s @
                   [''Fetching '' @ url,
                    ''Skipping URL '' @ url @ '' (status='' @ str_int (status_code resp) @ '')'']\<rparr>)"
    if u: "url = month_url taxi_type month_start"
  proof -
    let ?s1 = "print (''Fetching '' @ url) s"
    have "requests_get ext (requests_made ?s1) url = Inr resp"
      using assms(1) by (simp add: print_def)
    from load_non_ok [OF this assms(2)] show ?thesis
      unfolding month_body_def Let_def u [symmetric]
      by (simp add: df_empty_def print_def)
  qed
  from a b show ?thesis by (intro conjI impI)
qed

lemma demo_february_url:
  "month_url ''yellow'' \<lparr>year = 2023, month = 2, day = 1\<rparr> =
     ''https://d37ci6vzurychx.cloudfront.net/trip-data/yellow_tripdata_2023-02.parquet''"
  by code_simp

lemma str_int_404: "str_int 404 = ''404''"
  by code_simp

theorem non_ok_month_is_skipped_witness:
  "requests_get demo_extern_feb_404 (requests_made (demo_state\<lparr>requests_made := 1\<rparr>))
       (month_url ''yellow'' \<lparr>year = 2023, month = 2, day = 1\<rparr>) =
     Inr \<lparr>status_code = 404, content = []\<rparr> \<and>
   status_code \<lparr>status_code = 404, content = []\<rparr> \<noteq> 200 \<and>
   month_body demo_extern_feb_404 \<lparr>year = 2023, month = 1, day = 1\<rparr>
       \<lparr>year = 2023, month = 3, day = 1\<rparr> ''yellow'' \<lparr>year = 2023, month = 2, day = 1\<rparr>
       [demo_january] (demo_state\<lparr>requests_made := 1\<rparr>) =
     (Inr [demo_january],
      \<lparr>stdout =
         [''Fetching https://d37ci6vzurychx.cloudfront.net/trip-data/yellow_tripdata_2023-02.parquet'',
          ''Skipping URL https://d37ci6vzurychx.cloudfront.net/trip-data/yellow_tripdata_2023-02.parquet (status=404)''],
       requests_made = 2, clock_reads = 0\<rparr>) \<and>
   fst (materialize demo_extern_feb_404 demo_environ demo_state) =
     Inr \<lparr>columns = [''pickup_datetime'', ''pickup_location_id'', ''fare_amount'',
                      ''taxi_type'', ''extracted_at''],
          rows = [[Timestamp \<lparr>year = 2023, month = 1, day = 5\<rparr> 7, Raw 141, Raw 12,
                   Text ''yellow'', UtcStamp 1000]]\<rparr>"
proof -
  have r: "requests_get demo_extern_feb_404 (requests_made (demo_state\<lparr>requests_made := 1\<rparr>))
       (month_url ''yellow'' \<lparr>year = 2023, month = 2, day = 1\<rparr>) =
     Inr \<lparr>status_code = 404, content = []\<rparr>"
    by (simp add: demo_extern_feb_404_def demo_extern_def demo_state_def)
  have n: "status_code \<lparr>status_code = 404, content = []\<rparr> \<noteq> 200" by simp
  have m: "fst (materialize demo_extern_feb_404 demo_environ demo_state) =
     Inr \<lparr>columns = [''pickup_datetime'', ''pickup_location_id'', ''fare_amount'',
                      ''taxi_type'', ''extracted_at''],
          rows = [[Timestamp \<lparr>year = 2023, month = 1, day = 5\<rparr> 7, Raw 141, Raw 12,
                   Text ''yellow'', UtcStamp 1000]]\<rparr>"
    by code_simp
  show ?thesis
    using r n m non_ok_month_is_skipped [OF r n, of "''yellow''" "\<lparr>year = 2023, month = 2, day = 1\<rparr>"
        "\<lparr>year = 2023, month = 1, day = 1\<rparr>" "\<lparr>year = 2023, month = 3, day = 1\<rparr>" "[demo_january]"]
    by (simp add: demo_february_url str_int_404 demo_state_def)
qed

text \<open>
  C8. When \<^verbatim>\<open>BRUIN_START_DATE\<close> or \<^verbatim>\<open>BRUIN_END_DATE\<close> is unset (or set to the empty string),
  \<open>materialize\<close> raises \<^verbatim>\<open>RuntimeError\<close> and the state of the run is untouched: no
  request was made and nothing was printed.
\<close>

theorem materialize_missing_window:
  assumes "unset (environ ''BRUIN_START_DATE'') \<or> unset (environ ''BRUIN_END_DATE'')"
  shows "materialize ext environ s = (Inl RuntimeError, s)"
  using assms by (simp add: materialize_def read_config_def)

theorem materialize_missing_window_witness:
  "(unset (demo_environ_no_end ''BRUIN_START_DATE'') \<or>
    unset (demo_environ_no_end ''BRUIN_END_DATE'')) \<and>
   materialize demo_extern demo_environ_no_end demo_state =
     (Inl RuntimeError, \<lparr>stdout = [], requests_made = 0, clock_reads = 0\<rparr>)"
proof -
  have h: "unset (demo_environ_no_end ''BRUIN_START_DATE'') \<or>
    unset (demo_environ_no_end ''BRUIN_END_DATE'')"
    by (simp add: unset_def demo_environ_no_end_def)
  have s: "demo_state = \<lparr>stdout = [], requests_made = 0, clock_reads = 0\<rparr>"
    by (simp add: demo_state_def)
  show ?thesis
    using h materialize_missing_window [OF h, of demo_extern demo_state]
    unfolding s by - (intro conjI, assumption+)
qed

subsection \<open>The ingestion timestamp\<close>

lemma rows_set_scalar_nonempty: "rows df \<noteq> [] \<Longrightarrow> rows (set_scalar c v df) \<noteq> []"
  using length_rows_set_scalar [of c v df] by (metis length_0_conv)






subsection \<open>The result of a run\<close>

lemma month_body_rows:
  assumes "month_body ext sd ed ty m frames s = (Inr frames', s')"
    and "\<forall>f \<in> set frames. rows f \<noteq> []"
  shows "\<forall>f \<in> set frames'. rows f \<noteq> []"
  using assms(1)
proof (cases rule: month_body_cases)
  case skip
  with assms(2) show ?thesis by simp
next
  case (append df df1 df2 s2)
  have "rows (set_scalar ''extracted_at'' (UtcStamp (utcnow ext (clock_reads s))) df2) \<noteq> []"
    using append(5) by (intro rows_set_scalar_nonempty df_empty_rows)
  with assms(2) show ?thesis unfolding append(6) by simp
qed

lemma for_months_rows:
  "for_months ext sd ed ty ms frames s = (Inr frames', s') \<Longrightarrow>
   \<forall>f \<in> set frames. rows f \<noteq> [] \<Longrightarrow> \<forall>f \<in> set frames'. rows f \<noteq> []"
proof (induction ms arbitrary: frames s)
  case Nil
  then show ?case by simp
next
  case (Cons m ms)
  obtain r s1 where b: "month_body ext sd ed ty m frames s = (r, s1)"
    by (cases "month_body ext sd ed ty m frames s")
  with Cons.prems(1) obtain frames1 where r: "r = Inr frames1"
    by (cases r) simp_all
  from b r Cons.prems(2) have "\<forall>f \<in> set frames1. rows f \<noteq> []"
    using month_body_rows by blast
  moreover from Cons.prems(1) b r have "for_months ext sd ed ty ms frames1 s1 = (Inr frames', s')"
    by simp
  ultimately show ?case by (rule Cons.IH [rotated])
qed

lemma for_month_starts_rows:
  assumes "for_month_starts ext sd ed ty frames s = (Inr frames', s')"
    and "\<forall>f \<in> set frames. rows f \<noteq> []"
  shows "\<forall>f \<in> set frames'. rows f \<noteq> []"
proof -
  obtain ms g where g: "month_starts sd ed = (ms, g)"
    by (cases "month_starts sd ed")
  obtain r s1 where l: "for_months ext sd ed ty ms frames s = (r, s1)"
    by (cases "for_months ext sd ed ty ms frames s")
  from assms(1) g l obtain frames1 where r: "r = Inr frames1"
    by (cases r) (simp_all add: for_month_starts_def)
  from assms(1) g l r have "frames' = frames1"
    by (simp add: for_month_starts_def split: option.splits)
  with l r assms(2) show ?thesis
    using for_months_rows by blast
qed

lemma for_taxi_types_rows:
  "for_taxi_types ext sd ed tts frames s = (Inr frames', s') \<Longrightarrow>
   \<forall>f \<in> set frames. rows f \<noteq> [] \<Longrightarrow> \<forall>f \<in> set frames'. rows f \<noteq> []"
proof (induction tts arbitrary: frames s)
  case Nil
  then show ?case by simp
next
  case (Cons t tts)
  obtain r s1 where b: "for_month_starts ext sd ed t frames s = (r, s1)"
    by (cases "for_month_starts ext sd ed t frames s")
  with Cons.prems(1) obtain frames1 where r: "r = Inr frames1"
    by (cases r) simp_all
  from b r Cons.prems(2) have "\<forall>f \<in> set frames1. rows f \<noteq> []"
    using for_month_starts_rows by blast
  moreover from Cons.prems(1) b r have "for_taxi_types ext sd ed tts frames1 s1 = (Inr frames', s')"
    by simp
  ultimately show ?case by (rule Cons.IH [rotated])
qed

lemma length_recast [simp]: "length (recast up j rs) = length rs"
  by (simp add: recast_def Let_def)

lemma length_recast_all [simp]: "length (recast_all up n rs) = length rs"
proof -
  have "length (fold (recast up) js rs) = length rs" for js
    by (induction js arbitrary: rs) simp_all
  then show ?thesis by (simp add: recast_all_def)
qed

lemma recast_all_Nil_iff [simp]: "recast_all up n rs = [] \<longleftrightarrow> rs = []"
  using length_recast_all [of up n rs] by (metis length_0_conv)

lemma concat_frames_rows:
  assumes "concat_frames up frames = Inr t" and "frames \<noteq> []"
    and "\<forall>f \<in> set frames. rows f \<noteq> []"
  shows "rows t \<noteq> []"
proof -
  from assms(2) obtain f fs where f: "frames = f # fs" by (cases frames) auto
  with assms(3) have "rows f \<noteq> []" by simp
  with assms(1) show ?thesis
    unfolding f concat_frames_def by (auto split: if_splits)
qed

lemma finish_Nil:
  "finish up [] =
     Inr \<lparr>columns = [''taxi_type'', ''pickup_datetime'', ''dropoff_datetime'', ''pickup_location_id'',
                      ''dropoff_location_id'', ''passenger_count'', ''trip_distance'', ''fare_amount'',
                      ''total_amount'', ''payment_type'', ''extracted_at''],
          rows = []\<rparr>"
  by (simp add: finish_def new_frame_def canonical_columns_def)

lemma materialize_cases:
  assumes "materialize ext environ s = (Inr t, s')"
  obtains sd ed tts frames where
    "read_config ext environ = Inr (sd, ed, tts)"
    "for_taxi_types ext sd ed tts [] s = (Inr frames, s')"
    "finish (upcast ext) frames = Inr t"
proof -
  from assms obtain sd ed tts where c: "read_config ext environ = Inr (sd, ed, tts)"
    by (cases "read_config ext environ") (auto simp: materialize_def)
  obtain r s1 where l: "for_taxi_types ext sd ed tts [] s = (r, s1)"
    by (cases "for_taxi_types ext sd ed tts [] s")
  from assms c l obtain frames where r: "r = Inr frames"
    by (cases r) (simp_all add: materialize_def)
  from assms c l r have "finish (upcast ext) frames = Inr t" "s1 = s'"
    by (simp_all add: materialize_def)
  with c l r show ?thesis by (intro that) simp_all
qed

text \<open>
  C6. When the loops accumulate no frame, \<open>materialize\<close> returns the empty table with
  the eleven canonical columns in the order of the data model. No frame is
  accumulated exactly when the result has no row: a table that \<open>materialize\<close> returns
  without rows is that canonical empty table.
\<close>

theorem materialize_no_rows:
  "(read_config ext environ = Inr (start_date, end_date, taxi_types) \<and>
    for_taxi_types ext start_date end_date taxi_types [] s = (Inr [], s') \<longrightarrow>
      materialize ext environ s =
        (Inr \<lparr>columns = [''taxi_type'', ''pickup_datetime'', ''dropoff_datetime'',
                         ''pickup_location_id'', ''dropoff_location_id'', ''passenger_count'',
                         ''trip_distance'', ''fare_amount'', ''total_amount'', ''payment_type'',
                         ''extracted_at''],
             rows = []\<rparr>, s')) \<and>
   (materialize ext environ s = (Inr t, s') \<and> rows t = [] \<longrightarrow>
      t = \<lparr>columns = [''taxi_type'', ''pickup_datetime'', ''dropoff_datetime'',
                      ''pickup_location_id'', ''dropoff_location_id'', ''passenger_count'',
                      ''trip_distance'', ''fare_amount'', ''total_amount'', ''payment_type'',
                      ''extracted_at''],
           rows = []\<rparr>)"
proof (intro conjI impI)
  assume "read_config ext environ = Inr (start_date, end_date, taxi_types) \<and>
    for_taxi_types ext start_date end_date taxi_types [] s = (Inr [], s')"
  then have c: "read_config ext environ = Inr (start_date, end_date, taxi_types)"
    and l: "for_taxi_types ext start_date end_date taxi_types [] s = (Inr [], s')"
    by (rule conjunct1, rule conjunct2)
  show "materialize ext environ s =
        (Inr \<lparr>columns = [''taxi_type'', ''pickup_datetime'', ''dropoff_datetime'',
                         ''pickup_location_id'', ''dropoff_location_id'', ''passenger_count'',
                         ''trip_distance'', ''fare_amount'', ''total_amount'', ''payment_type'',
                         ''extracted_at''],
             rows = []\<rparr>, s')"
    by (simp add: materialize_def c l finish_Nil)
next
  assume "materialize ext environ s = (Inr t, s') \<and> rows t = []"
  then have m: "materialize ext environ s = (Inr t, s')" and e: "rows t = []"
    by (rule conjunct1, rule conjunct2)
  from m obtain sd ed tts frames where
    l: "for_taxi_types ext sd ed tts [] s = (Inr frames, s')"
    and f: "finish (upcast ext) frames = Inr t"
    by (rule materialize_cases)
  have inv: "\<forall>f \<in> set frames. rows f \<noteq> []"
    using l by (rule for_taxi_types_rows) simp
  have "frames = []"
  proof (rule ccontr)
    assume ne: "frames \<noteq> []"
    with f have "concat_frames (upcast ext) frames = Inr t" by (simp add: finish_def)
    from concat_frames_rows [OF this ne inv] e show False by simp
  qed
  with f show "t = \<lparr>columns = [''taxi_type'', ''pickup_datetime'', ''dropoff_datetime'',
                      ''pickup_location_id'', ''dropoff_location_id'', ''passenger_count'',
                      ''trip_distance'', ''fare_amount'', ''total_amount'', ''payment_type'',
                      ''extracted_at''],
           rows = []\<rparr>"
    by (simp only: finish_Nil sum.inject)
qed

lemma demo_config:
  "read_config demo_extern_404 demo_environ =
     Inr (\<lparr>year = 2023, month = 1, day = 1\<rparr>, \<lparr>year = 2023, month = 3, day = 1\<rparr>, [''yellow''])"
  by code_simp

lemma demo_all_missing:
  "fst (for_taxi_types demo_extern_404 \<lparr>year = 2023, month = 1, day = 1\<rparr>
          \<lparr>year = 2023, month = 3, day = 1\<rparr> [''yellow''] [] demo_state) = Inr []"
  by code_simp

theorem materialize_no_rows_witness:
  "read_config demo_extern_404 demo_environ =
     Inr (\<lparr>year = 2023, month = 1, day = 1\<rparr>, \<lparr>year = 2023, month = 3, day = 1\<rparr>, [''yellow'']) \<and>
   for_taxi_types demo_extern_404 \<lparr>year = 2023, month = 1, day = 1\<rparr>
       \<lparr>year = 2023, month = 3, day = 1\<rparr> [''yellow''] [] demo_state =
     (Inr [], snd (for_taxi_types demo_extern_404 \<lparr>year = 2023, month = 1, day = 1\<rparr>
                     \<lparr>year = 2023, month = 3, day = 1\<rparr> [''yellow''] [] demo_state)) \<and>
   materialize demo_extern_404 demo_environ demo_state =
     (Inr \<lparr>columns = [''taxi_type'', ''pickup_datetime'', ''dropoff_datetime'',
                      ''pickup_location_id'', ''dropoff_location_id'', ''passenger_count'',
                      ''trip_distance'', ''fare_amount'', ''total_amount'', ''payment_type'',
                      ''extracted_at''],
          rows = []\<rparr>,
      snd (for_taxi_types demo_extern_404 \<lparr>year = 2023, month = 1, day = 1\<rparr>
             \<lparr>year = 2023, month = 3, day = 1\<rparr> [''yellow''] [] demo_state))"
proof -
  have l: "for_taxi_types demo_extern_404 \<lparr>year = 2023, month = 1, day = 1\<rparr>
       \<lparr>year = 2023, month = 3, day = 1\<rparr> [''yellow''] [] demo_state =
     (Inr [], snd (for_taxi_types demo_extern_404 \<lparr>year = 2023, month = 1, day = 1\<rparr>
                     \<lparr>year = 2023, month = 3, day = 1\<rparr> [''yellow''] [] demo_state))"
    by (rule prod_eqI) (simp_all only: fst_conv snd_conv demo_all_missing)
  note inst = materialize_no_rows [THEN conjunct1, THEN mp, OF conjI [OF demo_config l]]
  show ?thesis
    using demo_config l inst by - (intro conjI, assumption+)
qed

end
